theory Spec2Isabelle
  imports Main
begin

section \<open>gasadd: queueing messages to agent windows of a terminal multiplexer\<close>

text \<open>
  The command handler \<open>runAdd\<close> of \<open>cmd/root.go\<close> is embedded below. It resolves a
  session, filters the session's windows into a target list and then either previews
  the list (dry run) or delivers the message to each target, counting what happened.

  The package \<open>internal/tmux\<close> that \<open>runAdd\<close> calls is not part of the sources, so its
  functions are parameters of the model (the record \<open>tmux\<close>). The multiplexer changes
  over time: two calls of the same function may answer differently. Every call that
  \<open>runAdd\<close> makes, and every line it prints, is therefore appended to a log, and each
  collaborator answers as a function of the log of everything that happened before the
  call. A log is also what the statements about "no send attempted" or "exactly two
  delays" are about.
\<close>

subsection \<open>Data\<close>

text \<open>\<open>tmux.Window\<close>: the fields \<open>runAdd\<close> reads. \<open>Index\<close> is a Go \<open>int\<close>; it is only
  compared and printed, never computed with.\<close>

record window =
  Index :: int
  Name :: string
  Command :: string

text \<open>The package-level flag variables, set by the flag parser before \<open>runAdd\<close> runs.\<close>

record flags =
  windowFlags :: "string list"
  sessionFlag :: string
  patternFlag :: string
  anyFlag :: bool
  allFlag :: bool
  dryRunFlag :: bool
  forceFlag :: bool

text \<open>A Go \<open>error\<close> of a collaborator is represented by its text.\<close>

type_synonym go_error = string

text \<open>The lines \<open>runAdd\<close> prints, one constructor per print statement, carrying the
  arguments of the format string.\<close>

datatype printed =
    NoWindowsToSend
      \<comment> \<open>stderr: \<open>No windows to send message to\<close>\<close>
  | WouldQueue int string
      \<comment> \<open>stdout: \<open>Would queue message to %d window(s) in session %q:\<close>\<close>
  | WouldQueueWindow int string string string
      \<comment> \<open>stdout: \<open>  %d: %s (%s)%s\<close> with index, name, command, claudeStatus\<close>
  | WouldQueueMessage string
      \<comment> \<open>stdout: \<open>Message: %s\<close>\<close>
  | NoClaudeAgent string
      \<comment> \<open>stderr: \<open>destination window %q has no Claude agent running - ...\<close>\<close>
  | BusyTyping string
      \<comment> \<open>stderr: \<open>destination window %q is busy (user is typing) - ...\<close>\<close>
  | FailedToQueue string go_error
      \<comment> \<open>stderr: \<open>Failed to queue message to %s: %v\<close>\<close>
  | TallyLine string
      \<comment> \<open>stdout: the joined tally parts\<close>
  | QueuedTo int
      \<comment> \<open>stdout: \<open>Queued to %d window(s)\<close>\<close>

text \<open>One event per collaborator call (with its arguments and its answer), per sleep
  and per printed line.\<close>

datatype event =
    IsInsideTmuxEv bool
  | GetCurrentContextEv "go_error + string \<times> int \<times> string"
  | SessionExistsEv string bool
  | ListWindowsEv string "go_error + window list"
  | IsClaudeRunningEv window bool
  | HasPendingInputEv string bool "go_error option"
  | SleepEv int
  | AddMessageEv string string "go_error option"
  | Print printed

type_synonym log = "event list"

text \<open>The functions of \<open>internal/tmux\<close>, with their Go result types: a result
  \<open>(T, error)\<close> whose value is used only when the error is nil is a sum,
  \<open>HasPendingInput\<close>, whose boolean \<open>runAdd\<close> reads whatever the error is, returns the
  pair. \<open>MatchPattern\<close> is a pure function of its two strings.\<close>

record tmux =
  IsInsideTmux :: "log \<Rightarrow> bool"
  GetCurrentContext :: "log \<Rightarrow> go_error + string \<times> int \<times> string"
  SessionExists :: "log \<Rightarrow> string \<Rightarrow> bool"
  ListWindows :: "log \<Rightarrow> string \<Rightarrow> go_error + window list"
  MatchPattern :: "string \<Rightarrow> string \<Rightarrow> bool"
  IsClaudeRunning :: "log \<Rightarrow> window \<Rightarrow> bool"
  HasPendingInput :: "log \<Rightarrow> string \<Rightarrow> bool \<times> go_error option"
  AddMessage :: "log \<Rightarrow> string \<Rightarrow> string \<Rightarrow> go_error option"

text \<open>The errors \<open>runAdd\<close> returns, one constructor per \<open>fmt.Errorf\<close>.\<close>

datatype run_error =
    ContextFailed go_error
      \<comment> \<open>\<open>failed to get tmux context: %w\<close>\<close>
  | NotInsideTmux
      \<comment> \<open>\<open>not inside tmux; use -s/--session to specify target session\<close>\<close>
  | SessionDoesNotExist string
      \<comment> \<open>\<open>session %q does not exist\<close>\<close>
  | ListWindowsFailed go_error
      \<comment> \<open>\<open>failed to list windows: %w\<close>\<close>
  | MessagesFailed int
      \<comment> \<open>\<open>%d message(s) failed\<close>\<close>

text \<open>The counters of the delivery loop.\<close>

record counters =
  succeeded :: int
  failed :: int
  skippedTyping :: int
  skippedNoClaude :: int

subsection \<open>Library functions used by \<open>runAdd\<close>\<close>

text \<open>\<open>fmt.Sprintf("%d", i)\<close>: the decimal digits of \<open>i\<close>, with a minus sign when
  negative.\<close>

fun decimal :: "nat \<Rightarrow> string" where
  "decimal n =
     (if n < 10 then [''0123456789'' ! n]
      else decimal (n div 10) @ [''0123456789'' ! (n mod 10)])"

definition sprintf_d :: "int \<Rightarrow> string" where
  "sprintf_d i = (if i < 0 then ''-'' @ decimal (nat (- i)) else decimal (nat i))"

text \<open>\<open>strings.Join(elems, sep)\<close>.\<close>

fun strings_Join :: "string list \<Rightarrow> string \<Rightarrow> string" where
  "strings_Join [] sep = []"
| "strings_Join [x] sep = x"
| "strings_Join (x # y # ys) sep = x @ sep @ strings_Join (y # ys) sep"

text \<open>\<open>time.Second\<close>, in nanoseconds.\<close>

definition Second :: int where
  "Second = 1000000000"

subsection \<open>Target resolution\<close>

text \<open>Lines 266-286: the session to target and the window index to exclude
  (\<open>-1\<close>: none).\<close>

definition determine_session :: "tmux \<Rightarrow> flags \<Rightarrow> log \<Rightarrow> (run_error + string \<times> int) \<times> log" where
  "determine_session env fl l =
     (let inside = IsInsideTmux env l;
          l1 = l @ [IsInsideTmuxEv inside]
      in if inside then
           (let ctx = GetCurrentContext env l1;
                l2 = l1 @ [GetCurrentContextEv ctx]
            in case ctx of
                 Inl err \<Rightarrow> (Inl (ContextFailed err), l2)
               | Inr (currentSession, currentWindowIdx, paneID) \<Rightarrow>
                   if sessionFlag fl \<noteq> [] then (Inr (sessionFlag fl, - 1), l2)
                   else (Inr (currentSession, currentWindowIdx), l2))
         else if sessionFlag fl = [] then (Inl NotInsideTmux, l1)
         else (Inr (sessionFlag fl, - 1), l1))"

text \<open>Lines 309-315: the search of the \<open>--window\<close> list, stopping at the first hit.\<close>

fun found_in :: "string list \<Rightarrow> window \<Rightarrow> bool" where
  "found_in [] w = False"
| "found_in (name # names) w =
     (if Name w = name \<or> sprintf_d (Index w) = name then True else found_in names w)"

text \<open>Lines 302-326: the body of the filter loop; \<open>False\<close> is \<open>continue\<close>, \<open>True\<close>
  reaches the \<open>append\<close>.\<close>

definition keep_window :: "tmux \<Rightarrow> flags \<Rightarrow> int \<Rightarrow> window \<Rightarrow> bool" where
  "keep_window env fl currentWindowIndex w =
     (if \<not> allFlag fl \<and> currentWindowIndex \<ge> 0 \<and> Index w = currentWindowIndex then False
      else if length (windowFlags fl) > 0 \<and> \<not> found_in (windowFlags fl) w then False
      else if patternFlag fl \<noteq> [] \<and> \<not> MatchPattern env (Name w) (patternFlag fl) then False
      else True)"

text \<open>Lines 300-327: the filter loop, appending to \<open>targets\<close>.\<close>

fun filter_windows :: "tmux \<Rightarrow> flags \<Rightarrow> int \<Rightarrow> window list \<Rightarrow> window list \<Rightarrow> window list" where
  "filter_windows env fl cwi [] targets = targets"
| "filter_windows env fl cwi (w # ws) targets =
     (if keep_window env fl cwi w then filter_windows env fl cwi ws (targets @ [w])
      else filter_windows env fl cwi ws targets)"

text \<open>Lines 266-327: from the flags to the session and its target list.\<close>

definition resolve :: "tmux \<Rightarrow> flags \<Rightarrow> log \<Rightarrow> (run_error + string \<times> window list) \<times> log" where
  "resolve env fl l =
     (case determine_session env fl l of
        (Inl e, l1) \<Rightarrow> (Inl e, l1)
      | (Inr (session, currentWindowIndex), l1) \<Rightarrow>
          (let ex = SessionExists env l1 session;
               l2 = l1 @ [SessionExistsEv session ex]
           in if \<not> ex then (Inl (SessionDoesNotExist session), l2)
              else (let r = ListWindows env l2 session;
                        l3 = l2 @ [ListWindowsEv session r]
                    in case r of
                         Inl err \<Rightarrow> (Inl (ListWindowsFailed err), l3)
                       | Inr windows \<Rightarrow>
                           (Inr (session, filter_windows env fl currentWindowIndex windows []), l3))))"

subsection \<open>Dry run\<close>

text \<open>Lines 337-343: one line per target, marked when the classifier says so now.\<close>

fun dry_run_loop :: "tmux \<Rightarrow> window list \<Rightarrow> log \<Rightarrow> log" where
  "dry_run_loop env [] l = l"
| "dry_run_loop env (w # ws) l =
     (let b = IsClaudeRunning env l w;
          claudeStatus = (if b then '' [claude]'' else [])
      in dry_run_loop env ws
           (l @ [IsClaudeRunningEv w b,
                 Print (WouldQueueWindow (Index w) (Name w) (Command w) claudeStatus)]))"

subsection \<open>Delivery\<close>

definition maxRetries :: nat where
  "maxRetries = 3"

definition retryDelay :: int where
  "retryDelay = 5 * Second"

text \<open>Line 367: \<open>hasPending, _ = tmux.HasPendingInput(target)\<close>: one probe; the error
  is assigned to \<open>_\<close> and only the boolean is kept.\<close>

definition probe :: "tmux \<Rightarrow> string \<Rightarrow> log \<Rightarrow> bool \<times> log" where
  "probe env target l =
     (fst (HasPendingInput env l target),
      l @ [HasPendingInputEv target (fst (HasPendingInput env l target))
             (snd (HasPendingInput env l target))])"

text \<open>Lines 366-374: the retry loop. \<open>hasPending\<close> is the variable declared before the
  loop.\<close>

function pending_loop :: "tmux \<Rightarrow> string \<Rightarrow> nat \<Rightarrow> bool \<Rightarrow> log \<Rightarrow> bool \<times> log" where
  "pending_loop env target attempt hasPending l =
     (if attempt < maxRetries then
        (if \<not> fst (probe env target l) then probe env target l
         else if attempt < maxRetries - 1
         then pending_loop env target (attempt + 1) (fst (probe env target l))
                (snd (probe env target l) @ [SleepEv retryDelay])
         else pending_loop env target (attempt + 1) (fst (probe env target l))
                (snd (probe env target l)))
      else (hasPending, l))"
  by pat_completeness auto
termination
  by (relation "measure (\<lambda>(env, target, attempt, hasPending, l). maxRetries - attempt)") auto

text \<open>Line 351: \<open>fmt.Sprintf("%s:%d", session, w.Index)\<close>.\<close>

definition target_of :: "string \<Rightarrow> window \<Rightarrow> string" where
  "target_of session w = session @ '':'' @ sprintf_d (Index w)"

text \<open>Line 354: \<open>!anyFlag && !tmux.IsClaudeRunning(w)\<close>; the classifier is called only
  when \<open>anyFlag\<close> is unset.\<close>

definition no_claude :: "tmux \<Rightarrow> flags \<Rightarrow> window \<Rightarrow> log \<Rightarrow> bool \<times> log" where
  "no_claude env fl w l =
     (if anyFlag fl then (False, l)
      else (\<not> IsClaudeRunning env l w, l @ [IsClaudeRunningEv w (IsClaudeRunning env l w)]))"

text \<open>Lines 361-376: \<open>hasPending\<close> after the retry loop, \<open>False\<close> when \<open>forceFlag\<close>
  skips it.\<close>

definition has_pending :: "tmux \<Rightarrow> flags \<Rightarrow> string \<Rightarrow> log \<Rightarrow> bool \<times> log" where
  "has_pending env fl target l =
     (if forceFlag fl then (False, l) else pending_loop env target 0 False l)"

text \<open>Lines 351-388: the body of the delivery loop for one target.\<close>

definition deliver_step ::
  "tmux \<Rightarrow> flags \<Rightarrow> string \<Rightarrow> string \<Rightarrow> window \<Rightarrow> counters \<times> log \<Rightarrow> counters \<times> log" where
  "deliver_step env fl session message w st =
     (let c = fst st; l = snd st;
          target = target_of session w;
          (noClaude, l1) = no_claude env fl w l
      in if noClaude
         then (c\<lparr>skippedNoClaude := skippedNoClaude c + 1\<rparr>, l1 @ [Print (NoClaudeAgent (Name w))])
         else (let (hasPending, l2) = has_pending env fl target l1
               in if hasPending
                  then (c\<lparr>skippedTyping := skippedTyping c + 1\<rparr>,
                        l2 @ [Print (BusyTyping (Name w))])
                  else (case AddMessage env l2 target message of
                          Some err \<Rightarrow>
                            (c\<lparr>failed := failed c + 1\<rparr>,
                             l2 @ [AddMessageEv target message (Some err),
                                   Print (FailedToQueue (Name w) err)])
                        | None \<Rightarrow>
                            (c\<lparr>succeeded := succeeded c + 1\<rparr>,
                             l2 @ [AddMessageEv target message None]))))"

text \<open>Lines 349-389: the delivery loop.\<close>

fun deliver_loop ::
  "tmux \<Rightarrow> flags \<Rightarrow> string \<Rightarrow> string \<Rightarrow> window list \<Rightarrow> counters \<times> log \<Rightarrow> counters \<times> log" where
  "deliver_loop env fl session message [] st = st"
| "deliver_loop env fl session message (w # ws) st =
     deliver_loop env fl session message ws (deliver_step env fl session message w st)"

definition zero_counters :: counters where
  "zero_counters = \<lparr>succeeded = 0, failed = 0, skippedTyping = 0, skippedNoClaude = 0\<rparr>"

subsection \<open>Reporting\<close>

text \<open>Lines 396-408: the parts of the tally, in the order they are appended.\<close>

definition tally_parts :: "counters \<Rightarrow> string list" where
  "tally_parts c =
     (if succeeded c > 0 then [''queued to '' @ sprintf_d (succeeded c)] else []) @
     (if skippedNoClaude c > 0 then [sprintf_d (skippedNoClaude c) @ '' skipped (no Claude)''] else []) @
     (if skippedTyping c > 0 then [sprintf_d (skippedTyping c) @ '' deferred (user typing)''] else []) @
     (if failed c > 0 then [sprintf_d (failed c) @ '' failed''] else [])"

text \<open>Lines 394-417: the report and the result of the run.\<close>

definition report :: "counters \<Rightarrow> log \<Rightarrow> run_error option \<times> log" where
  "report c l =
     (let skipped = skippedTyping c + skippedNoClaude c
      in if failed c > 0 \<or> skipped > 0 then
           (let l1 = l @ [Print (TallyLine (strings_Join (tally_parts c) '', ''))]
            in if failed c > 0 then (Some (MessagesFailed (failed c)), l1) else (None, l1))
         else (None, l @ [Print (QueuedTo (succeeded c))]))"

subsection \<open>The command\<close>

text \<open>Lines 258-418: \<open>runAdd\<close>; \<open>None\<close> is the nil error.\<close>

definition runAdd :: "tmux \<Rightarrow> flags \<Rightarrow> string list \<Rightarrow> log \<Rightarrow> run_error option \<times> log" where
  "runAdd env fl args l =
     (let message = strings_Join args '' ''
      in case resolve env fl l of
           (Inl e, l1) \<Rightarrow> (Some e, l1)
         | (Inr (session, targets), l1) \<Rightarrow>
             if length targets = 0 then (None, l1 @ [Print NoWindowsToSend])
             else if dryRunFlag fl then
               (None,
                dry_run_loop env targets (l1 @ [Print (WouldQueue (int (length targets)) session)])
                  @ [Print (WouldQueueMessage message)])
             else (let (c, l2) = deliver_loop env fl session message targets (zero_counters, l1)
                   in report c l2))"

text \<open>\<open>main.go\<close>, lines 9-13: the exit status, as a function of the error that
  \<open>cmd.Execute()\<close> hands back: \<open>os.Exit(1)\<close> when it is not nil, status 0 otherwise.
  \<open>Execute\<close> itself is the command library's dispatch (argument check, flag parsing,
  the library's own hidden commands) and is not modelled; when the dispatch runs
  \<open>runAdd\<close>, the error it hands back is the one \<open>runAdd\<close> returned.\<close>

definition main :: "run_error option \<Rightarrow> int" where
  "main err = (if err \<noteq> None then 1 else 0)"

subsection \<open>The filter loop of the earlier revision\<close>

text \<open>The earlier revision of \<open>runAdd\<close> that the sources keep (lines 56-174) has the same
  three filters (lines 101-122) followed by a fourth (lines 124-127), the expression of
  line 354, before the \<open>append\<close>. It calls the classifier, so the loop carries the log.\<close>

fun filter_windows_prev ::
  "tmux \<Rightarrow> flags \<Rightarrow> int \<Rightarrow> window list \<Rightarrow> window list \<times> log \<Rightarrow> window list \<times> log" where
  "filter_windows_prev env fl cwi [] st = st"
| "filter_windows_prev env fl cwi (w # ws) st =
     (if \<not> keep_window env fl cwi w then filter_windows_prev env fl cwi ws st
      else if fst (no_claude env fl w (snd st))
      then filter_windows_prev env fl cwi ws (fst st, snd (no_claude env fl w (snd st)))
      else filter_windows_prev env fl cwi ws (fst st @ [w], snd (no_claude env fl w (snd st))))"

subsection \<open>Reading a log\<close>

text \<open>The probes, sends and delays recorded in a log.\<close>

fun is_probe :: "event \<Rightarrow> bool" where
  "is_probe (HasPendingInputEv t b e) = True"
| "is_probe _ = False"

fun is_send :: "event \<Rightarrow> bool" where
  "is_send (AddMessageEv t m r) = True"
| "is_send _ = False"

fun is_sleep :: "event \<Rightarrow> bool" where
  "is_sleep (SleepEv d) = True"
| "is_sleep _ = False"

definition probes :: "log \<Rightarrow> nat" where
  "probes l = length (filter is_probe l)"

fun delays :: "log \<Rightarrow> int list" where
  "delays [] = []"
| "delays (SleepEv d # l) = d # delays l"
| "delays (e # l) = delays l"

fun is_failed_send :: "event \<Rightarrow> bool" where
  "is_failed_send (AddMessageEv t m (Some err)) = True"
| "is_failed_send _ = False"


text \<open>The events of delivery: probes, delays and sends.\<close>

definition is_delivery :: "event \<Rightarrow> bool" where
  "is_delivery e = (is_probe e \<or> is_sleep e \<or> is_send e)"

text \<open>The lines printed, and the windows the classifier was asked about with its
  answers, in order.\<close>

fun printed_lines :: "log \<Rightarrow> printed list" where
  "printed_lines [] = []"
| "printed_lines (Print p # l) = p # printed_lines l"
| "printed_lines (e # l) = printed_lines l"

fun classified :: "log \<Rightarrow> (window \<times> bool) list" where
  "classified [] = []"
| "classified (IsClaudeRunningEv w b # l) = (w, b) # classified l"
| "classified (e # l) = classified l"

text \<open>The line of the dry run for a window and the classifier's answer.\<close>

definition dry_run_line :: "window \<times> bool \<Rightarrow> printed" where
  "dry_run_line wb =
     WouldQueueWindow (Index (fst wb)) (Name (fst wb)) (Command (fst wb))
       (if snd wb then '' [claude]'' else [])"

subsection \<open>The outcome rule of the specification\<close>

text \<open>\<open>DeliveryOutcome\<close> of the specification's data model.\<close>

datatype outcome = Sent | SkippedNoAgent | DeferredBusy | Failed go_error

text \<open>The rule of the specification's delivery executor for a target \<open>w\<close> processed when
  the log is \<open>l\<close>: skipped when agent-only mode is active and the classifier rejects the
  window now; else deferred when, without the force override, the pending-input check
  reports busy; else sent or failed as the send collaborator answers. \<open>l1\<close> is the log
  once the agent check is made, \<open>l2\<close> the log once the pending-input check is made.\<close>

definition delivery_outcome ::
  "tmux \<Rightarrow> flags \<Rightarrow> string \<Rightarrow> string \<Rightarrow> window \<Rightarrow> log \<Rightarrow> outcome" where
  "delivery_outcome env fl session message w l =
     (let target = target_of session w;
          l1 = snd (no_claude env fl w l);
          l2 = snd (has_pending env fl target l1)
      in if \<not> anyFlag fl \<and> \<not> IsClaudeRunning env l w then SkippedNoAgent
         else if \<not> forceFlag fl \<and> fst (pending_loop env target 0 False l1) then DeferredBusy
         else (case AddMessage env l2 target message of
                 None \<Rightarrow> Sent
               | Some reason \<Rightarrow> Failed reason))"

text \<open>The outcomes of a target list, each target processed on the log its predecessors
  leave.\<close>

fun delivery_outcomes ::
  "tmux \<Rightarrow> flags \<Rightarrow> string \<Rightarrow> string \<Rightarrow> window list \<Rightarrow> log \<Rightarrow> outcome list" where
  "delivery_outcomes env fl session message [] l = []"
| "delivery_outcomes env fl session message (w # ws) l =
     delivery_outcome env fl session message w l #
     delivery_outcomes env fl session message ws
       (snd (deliver_step env fl session message w (zero_counters, l)))"

text \<open>The counter an outcome belongs to, and the report of a list of outcomes.\<close>

fun count_outcome :: "outcome \<Rightarrow> counters \<Rightarrow> counters" where
  "count_outcome Sent c = c\<lparr>succeeded := succeeded c + 1\<rparr>"
| "count_outcome SkippedNoAgent c = c\<lparr>skippedNoClaude := skippedNoClaude c + 1\<rparr>"
| "count_outcome DeferredBusy c = c\<lparr>skippedTyping := skippedTyping c + 1\<rparr>"
| "count_outcome (Failed reason) c = c\<lparr>failed := failed c + 1\<rparr>"

fun is_Failed :: "outcome \<Rightarrow> bool" where
  "is_Failed (Failed reason) = True"
| "is_Failed _ = False"

definition delivery_report :: "outcome list \<Rightarrow> counters" where
  "delivery_report os =
     \<lparr>succeeded = int (length (filter (\<lambda>oc. oc = Sent) os)),
      failed = int (length (filter is_Failed os)),
      skippedTyping = int (length (filter (\<lambda>oc. oc = DeferredBusy) os)),
      skippedNoClaude = int (length (filter (\<lambda>oc. oc = SkippedNoAgent) os))\<rparr>"

text \<open>The sends an outcome stands for.\<close>

fun outcome_sends :: "string \<Rightarrow> string \<Rightarrow> outcome \<Rightarrow> log" where
  "outcome_sends target message Sent = [AddMessageEv target message None]"
| "outcome_sends target message (Failed reason) = [AddMessageEv target message (Some reason)]"
| "outcome_sends target message oc = []"

text \<open>The sends the outcomes of a target list stand for, in order.\<close>

fun sends_of :: "string \<Rightarrow> string \<Rightarrow> window list \<Rightarrow> outcome list \<Rightarrow> log" where
  "sends_of s m (w # ws) (oc # os) = outcome_sends (target_of s w) m oc @ sends_of s m ws os"
| "sends_of s m ws os = []"

text \<open>The sum of the four counters.\<close>

definition total :: "counters \<Rightarrow> int" where
  "total c = succeeded c + failed c + skippedTyping c + skippedNoClaude c"

subsection \<open>The boolean of a failing probe\<close>


subsection \<open>Example environments\<close>

text \<open>A pane that reports pending input on the first two probes and none afterwards,
  and a pane that always reports pending input.\<close>

definition tmux_answers ::
  "(log \<Rightarrow> window \<Rightarrow> bool) \<Rightarrow> (log \<Rightarrow> string \<Rightarrow> bool \<times> go_error option) \<Rightarrow>
   (log \<Rightarrow> string \<Rightarrow> string \<Rightarrow> go_error option) \<Rightarrow> window list \<Rightarrow> tmux" where
  "tmux_answers claude pending add ws =
     \<lparr>IsInsideTmux = (\<lambda>l. True),
      GetCurrentContext = (\<lambda>l. Inr (''work'', 0, ''%0'')),
      SessionExists = (\<lambda>l s. s = ''work'' \<or> s = ''swarm''),
      ListWindows = (\<lambda>l s. Inr ws),
      MatchPattern = (\<lambda>name pattern. name = pattern),
      IsClaudeRunning = claude,
      HasPendingInput = pending,
      AddMessage = add\<rparr>"

definition typing_twice :: tmux where
  "typing_twice =
     tmux_answers (\<lambda>l w. True) (\<lambda>l t. (probes l < 2, None)) (\<lambda>l t m. None) []"

definition typing_always :: tmux where
  "typing_always =
     tmux_answers (\<lambda>l w. True) (\<lambda>l t. (True, None)) (\<lambda>l t m. None) []"

text \<open>The session of the specification's examples: window 0 runs a shell, the others
  the agent; the classifier goes by the command.\<close>

definition w_main :: window where
  "w_main = \<lparr>Index = 0, Name = ''main'', Command = ''bash''\<rparr>"

definition w_worker :: window where
  "w_worker = \<lparr>Index = 1, Name = ''worker'', Command = ''claude''\<rparr>"

definition w_build :: window where
  "w_build = \<lparr>Index = 2, Name = ''build'', Command = ''claude''\<rparr>"

definition w_review :: window where
  "w_review = \<lparr>Index = 3, Name = ''review'', Command = ''claude''\<rparr>"

definition by_command :: "log \<Rightarrow> window \<Rightarrow> bool" where
  "by_command l w = (Command w = ''claude'')"

definition no_flags :: flags where
  "no_flags =
     \<lparr>windowFlags = [], sessionFlag = [], patternFlag = [], anyFlag = False,
      allFlag = False, dryRunFlag = False, forceFlag = False\<rparr>"

text \<open>Nobody types and every send succeeds.\<close>

definition quiet :: tmux where
  "quiet =
     tmux_answers by_command (\<lambda>l t. (False, None)) (\<lambda>l t m. None) [w_main, w_worker, w_build]"

text \<open>The send to window 2 fails and somebody keeps typing in window 3.\<close>

definition mixed :: tmux where
  "mixed =
     tmux_answers by_command (\<lambda>l t. (t = ''work:3'', None))
       (\<lambda>l t m. if t = ''work:2'' then Some ''no such pane'' else None)
       [w_main, w_worker, w_build, w_review]"



section \<open>Properties\<close>

subsection \<open>Decimal digits\<close>

declare decimal.simps [simp del]

lemma decimal_digit: "n < 10 \<Longrightarrow> decimal n = [''0123456789'' ! n]"
  by (subst decimal.simps) simp

lemma sprintf_d_digit:
  "sprintf_d 0 = ''0''" "sprintf_d 1 = ''1''" "sprintf_d 2 = ''2''" "sprintf_d 3 = ''3''"
  "sprintf_d 4 = ''4''"
  by (simp_all add: sprintf_d_def decimal_digit)

subsection \<open>The example environments\<close>

lemma tmux_answers_fields:
  "IsInsideTmux (tmux_answers cl pe ad ws) l = True"
  "GetCurrentContext (tmux_answers cl pe ad ws) l = Inr (''work'', 0, ''%0'')"
  "SessionExists (tmux_answers cl pe ad ws) l s = (s = ''work'' \<or> s = ''swarm'')"
  "ListWindows (tmux_answers cl pe ad ws) l s = Inr ws"
  "MatchPattern (tmux_answers cl pe ad ws) name pattern = (name = pattern)"
  "IsClaudeRunning (tmux_answers cl pe ad ws) = cl"
  "HasPendingInput (tmux_answers cl pe ad ws) = pe"
  "AddMessage (tmux_answers cl pe ad ws) = ad"
  by (simp_all add: tmux_answers_def)

lemma window_fields:
  "Index w_main = 0" "Name w_main = ''main''" "Command w_main = ''bash''"
  "Index w_worker = 1" "Name w_worker = ''worker''" "Command w_worker = ''claude''"
  "Index w_build = 2" "Name w_build = ''build''" "Command w_build = ''claude''"
  "Index w_review = 3" "Name w_review = ''review''" "Command w_review = ''claude''"
  by (simp_all add: w_main_def w_worker_def w_build_def w_review_def)

lemma no_flags_simps:
  "windowFlags no_flags = []" "sessionFlag no_flags = []" "patternFlag no_flags = []"
  "\<not> anyFlag no_flags" "\<not> allFlag no_flags" "\<not> dryRunFlag no_flags" "\<not> forceFlag no_flags"
  by (simp_all add: no_flags_def)

subsection \<open>The retry loop of the pending-input check\<close>

declare pending_loop.simps [simp del]

lemma pending_loop_done:
  "3 \<le> attempt \<Longrightarrow> pending_loop env t attempt hp l = (hp, l)"
  by (subst pending_loop.simps) (simp add: maxRetries_def)

lemma pending_loop_last: "pending_loop env t 2 hp l = probe env t l"
  by (subst pending_loop.simps) (simp add: maxRetries_def pending_loop_done prod_eq_iff)

lemma pending_loop_second:
  "pending_loop env t (Suc 0) hp l =
     (if \<not> fst (probe env t l) then probe env t l
      else probe env t (snd (probe env t l) @ [SleepEv retryDelay]))"
  by (subst pending_loop.simps)
     (simp add: maxRetries_def pending_loop_last numeral_2_eq_2[symmetric])

lemma pending_loop_first:
  "pending_loop env t 0 hp l =
     (if \<not> fst (probe env t l) then probe env t l
      else if \<not> fst (probe env t (snd (probe env t l) @ [SleepEv retryDelay]))
      then probe env t (snd (probe env t l) @ [SleepEv retryDelay])
      else probe env t
             (snd (probe env t (snd (probe env t l) @ [SleepEv retryDelay]))
                @ [SleepEv retryDelay]))"
  by (subst pending_loop.simps) (simp add: maxRetries_def pending_loop_second)

text \<open>
  C3. The pending-input check of one target, started on any log \<open>l\<close>, is at most three
  probes: \<open>a1\<close> on \<open>l\<close>, \<open>a2\<close> after \<open>a1\<close> and a sleep of 5 seconds, \<open>a3\<close> after \<open>a2\<close> and
  another sleep of 5 seconds. It ends with the first probe that reports no pending
  input, and with the third probe in any case. Of the events \<open>es\<close> it adds to the log,
  between one and three are probes, every delay is 5 seconds, there is one delay fewer
  than probes, the last event is a probe (no delay follows the final attempt), and the
  check reports busy only after three probes. So busy, busy, not busy gives not busy
  after exactly two delays, and busy three times gives busy after exactly two delays.
\<close>

theorem pending_input_retry_policy:
  "(let a1 = probe env t l;
        a2 = probe env t (snd a1 @ [SleepEv (5 * Second)]);
        a3 = probe env t (snd a2 @ [SleepEv (5 * Second)]);
        res = pending_loop env t 0 False l;
        es = drop (length l) (snd res)
    in res = (if \<not> fst a1 then a1 else if \<not> fst a2 then a2 else a3) \<and>
       snd res = l @ es \<and>
       1 \<le> probes es \<and> probes es \<le> 3 \<and>
       delays es = replicate (probes es - 1) (5 * Second) \<and>
       is_probe (last es) \<and>
       (fst res \<longrightarrow> probes es = 3) \<and>
       (fst a1 \<and> fst a2 \<and> \<not> fst a3 \<longrightarrow>
          \<not> fst res \<and> probes es = 3 \<and> delays es = [5 * Second, 5 * Second]) \<and>
       (fst a1 \<and> fst a2 \<and> fst a3 \<longrightarrow>
          fst res \<and> probes es = 3 \<and> delays es = [5 * Second, 5 * Second]))"
  by (simp add: pending_loop_first Let_def retryDelay_def probe_def probes_def)

theorem pending_input_retry_policy_witness:
  "\<not> fst (pending_loop typing_twice ''work:1'' 0 False []) \<and>
   delays (snd (pending_loop typing_twice ''work:1'' 0 False [])) = [5000000000, 5000000000] \<and>
   probes (snd (pending_loop typing_twice ''work:1'' 0 False [])) = 3 \<and>
   fst (pending_loop typing_always ''work:1'' 0 False []) \<and>
   delays (snd (pending_loop typing_always ''work:1'' 0 False [])) = [5000000000, 5000000000] \<and>
   probes (snd (pending_loop typing_always ''work:1'' 0 False [])) = 3"
proof -
  let ?d = "SleepEv (5 * Second)"
  let ?a1 = "probe typing_twice ''work:1'' []"
  let ?a2 = "probe typing_twice ''work:1'' (snd ?a1 @ [?d])"
  let ?a3 = "probe typing_twice ''work:1'' (snd ?a2 @ [?d])"
  let ?b1 = "probe typing_always ''work:1'' []"
  let ?b2 = "probe typing_always ''work:1'' (snd ?b1 @ [?d])"
  let ?b3 = "probe typing_always ''work:1'' (snd ?b2 @ [?d])"
  have twice: "fst ?a1 \<and> fst ?a2 \<and> \<not> fst ?a3"
    by (simp add: probe_def typing_twice_def tmux_answers_def probes_def)
  have always: "fst ?b1 \<and> fst ?b2 \<and> fst ?b3"
    by (simp add: probe_def typing_always_def tmux_answers_def)
  from pending_input_retry_policy [of typing_twice "''work:1''" "[]", unfolded Let_def] twice
  have "\<not> fst (pending_loop typing_twice ''work:1'' 0 False []) \<and>
        probes (drop (length ([]::log)) (snd (pending_loop typing_twice ''work:1'' 0 False []))) = 3 \<and>
        delays (drop (length ([]::log)) (snd (pending_loop typing_twice ''work:1'' 0 False [])))
          = [5 * Second, 5 * Second]"
    by blast
  moreover
  from pending_input_retry_policy [of typing_always "''work:1''" "[]", unfolded Let_def] always
  have "fst (pending_loop typing_always ''work:1'' 0 False []) \<and>
        probes (drop (length ([]::log)) (snd (pending_loop typing_always ''work:1'' 0 False []))) = 3 \<and>
        delays (drop (length ([]::log)) (snd (pending_loop typing_always ''work:1'' 0 False [])))
          = [5 * Second, 5 * Second]"
    by blast
  ultimately show ?thesis
    by (simp add: Second_def)
qed

subsection \<open>The delivery loop\<close>

text \<open>What one iteration adds to the log, and which counter it increments.\<close>

lemma pending_loop_log:
  "\<exists>es. snd (pending_loop env t 0 hp l) = l @ es \<and> filter is_send es = [] \<and> classified es = []
        \<and> printed_lines es = [] \<and> es \<noteq> []"
  by (simp add: pending_loop_first probe_def)

lemma has_pending_log:
  "\<exists>es. snd (has_pending env fl t l) = l @ es \<and> filter is_send es = [] \<and> classified es = []
        \<and> printed_lines es = []"
  using pending_loop_log [of env t False l] by (auto simp: has_pending_def)

lemma no_claude_log:
  "snd (no_claude env fl w l) =
     l @ (if anyFlag fl then [] else [IsClaudeRunningEv w (IsClaudeRunning env l w)])"
  by (simp add: no_claude_def)

lemma no_claude_fst: "fst (no_claude env fl w l) = (\<not> anyFlag fl \<and> \<not> IsClaudeRunning env l w)"
  by (simp add: no_claude_def)

lemma has_pending_fst:
  "fst (has_pending env fl t l) = (\<not> forceFlag fl \<and> fst (pending_loop env t 0 False l))"
  by (simp add: has_pending_def)

lemma deliver_step_counters:
  "fst (deliver_step env fl s m w (c, l)) = count_outcome (delivery_outcome env fl s m w l) c"
  by (simp add: deliver_step_def delivery_outcome_def Let_def split_beta no_claude_fst has_pending_fst
      split: option.splits)

lemma deliver_step_log_indep:
  "snd (deliver_step env fl s m w (c, l)) = snd (deliver_step env fl s m w (c', l))"
  by (simp add: deliver_step_def Let_def split_beta split: option.splits)

lemma deliver_step_log:
  "\<exists>es. snd (deliver_step env fl s m w (c, l)) = l @ es \<and>
        filter is_send es = outcome_sends (target_of s w) m (delivery_outcome env fl s m w l) \<and>
        (delivery_outcome env fl s m w l = SkippedNoAgent \<longrightarrow> filter is_delivery es = [])"
proof -
  obtain es1 where es1: "snd (no_claude env fl w l) = l @ es1" "filter is_send es1 = []" "filter is_delivery es1 = []"
    by (simp add: no_claude_log is_delivery_def)
  obtain es2 where es2: "snd (has_pending env fl (target_of s w) (l @ es1)) = l @ es1 @ es2" "filter is_send es2 = []"
    using has_pending_log [of env fl "target_of s w" "l @ es1"] by auto
  show ?thesis
    by (auto simp: deliver_step_def delivery_outcome_def Let_def split_beta no_claude_fst has_pending_fst es1 es2 is_delivery_def
      split: option.splits)
qed


lemma total_count_outcome: "total (count_outcome oc c) = total c + 1"
  by (cases oc) (simp_all add: total_def)

lemma deliver_loop_counters:
  "fst (deliver_loop env fl s m ws (c, l)) = fold count_outcome (delivery_outcomes env fl s m ws l) c"
proof (induction ws arbitrary: c l)
  case Nil
  show ?case by simp
next
  case (Cons w ws)
  let ?st = "deliver_step env fl s m w (c, l)"
  have "deliver_loop env fl s m (w # ws) (c, l) = deliver_loop env fl s m ws (fst ?st, snd ?st)"
    by simp
  moreover have "snd ?st = snd (deliver_step env fl s m w (zero_counters, l))"
    by (rule deliver_step_log_indep)
  ultimately show ?case
    by (simp only: Cons.IH delivery_outcomes.simps fold_Cons o_apply deliver_step_counters)
qed

lemma fold_count_succeeded:
  "succeeded (fold count_outcome os c) = succeeded c + int (length (filter (\<lambda>oc. oc = Sent) os))"
proof (induction os arbitrary: c)
  case Nil
  show ?case by simp
next
  case (Cons oc os)
  show ?case by (cases oc) (simp_all add: Cons.IH)
qed

lemma fold_count_failed:
  "failed (fold count_outcome os c) = failed c + int (length (filter is_Failed os))"
proof (induction os arbitrary: c)
  case Nil
  show ?case by simp
next
  case (Cons oc os)
  show ?case by (cases oc) (simp_all add: Cons.IH)
qed

lemma fold_count_typing:
  "skippedTyping (fold count_outcome os c) =
     skippedTyping c + int (length (filter (\<lambda>oc. oc = DeferredBusy) os))"
proof (induction os arbitrary: c)
  case Nil
  show ?case by simp
next
  case (Cons oc os)
  show ?case by (cases oc) (simp_all add: Cons.IH)
qed

lemma fold_count_no_claude:
  "skippedNoClaude (fold count_outcome os c) =
     skippedNoClaude c + int (length (filter (\<lambda>oc. oc = SkippedNoAgent) os))"
proof (induction os arbitrary: c)
  case Nil
  show ?case by simp
next
  case (Cons oc os)
  show ?case by (cases oc) (simp_all add: Cons.IH)
qed

lemma fold_count_report: "fold count_outcome os zero_counters = delivery_report os"
  by (rule counters.equality)
     (simp_all add: fold_count_succeeded fold_count_failed fold_count_typing fold_count_no_claude
        delivery_report_def zero_counters_def)

lemma length_delivery_outcomes: "length (delivery_outcomes env fl s m ws l) = length ws"
  by (induction ws arbitrary: l) simp_all

lemma total_fold: "total (fold count_outcome os c) = total c + int (length os)"
  by (induction os arbitrary: c) (simp_all add: total_count_outcome)

lemma deliver_loop_log:
  "\<exists>es. snd (deliver_loop env fl s m ws (c, l)) = l @ es \<and>
        filter is_send es = sends_of s m ws (delivery_outcomes env fl s m ws l)"
proof (induction ws arbitrary: c l)
  case Nil
  show ?case by simp
next
  case (Cons w ws)
  let ?st = "deliver_step env fl s m w (c, l)"
  obtain es1 where es1: "snd ?st = l @ es1"
    "filter is_send es1 = outcome_sends (target_of s w) m (delivery_outcome env fl s m w l)"
    using deliver_step_log [of env fl s m w c l] by blast
  have l1: "snd (deliver_step env fl s m w (zero_counters, l)) = l @ es1"
    using es1(1) deliver_step_log_indep [of env fl s m w zero_counters l c] by simp
  obtain es2 where es2: "snd (deliver_loop env fl s m ws (fst ?st, l @ es1)) = (l @ es1) @ es2"
    "filter is_send es2 = sends_of s m ws (delivery_outcomes env fl s m ws (l @ es1))"
    using Cons.IH [of "fst ?st" "l @ es1"] by blast
  have "?st = (fst ?st, l @ es1)"
    using es1(1) by (simp add: prod_eq_iff)
  then have "deliver_loop env fl s m (w # ws) (c, l) = deliver_loop env fl s m ws (fst ?st, l @ es1)"
    by (simp del: deliver_loop.simps add: deliver_loop.simps(2))
  then show ?case
    using es1(2) es2 l1 by simp
qed

text \<open>The example with a failing send and a busy pane, evaluated step by step.\<close>

lemma mixed_answers:
  "IsClaudeRunning mixed l w = (Command w = ''claude'')"
  "HasPendingInput mixed l t = (t = ''work:3'', None)"
  "AddMessage mixed l t m = (if t = ''work:2'' then Some ''no such pane'' else None)"
  by (simp_all add: mixed_def tmux_answers_def by_command_def)

lemma targets_simps:
  "target_of ''work'' w_worker = ''work:1''"
  "target_of ''work'' w_build = ''work:2''"
  "target_of ''work'' w_review = ''work:3''"
  by (simp_all add: target_of_def sprintf_d_digit w_worker_def w_build_def w_review_def)

lemma mixed_pending_idle:
  "t \<noteq> ''work:3'' \<Longrightarrow> pending_loop mixed t 0 False l = (False, l @ [HasPendingInputEv t False None])"
  by (simp add: pending_loop_first probe_def mixed_answers)

lemma mixed_pending_busy:
  "pending_loop mixed ''work:3'' 0 False l =
     (True, l @ [HasPendingInputEv ''work:3'' True None, SleepEv retryDelay,
                 HasPendingInputEv ''work:3'' True None, SleepEv retryDelay,
                 HasPendingInputEv ''work:3'' True None])"
  by (simp add: pending_loop_first probe_def mixed_answers)

lemma mixed_no_claude:
  "no_claude mixed no_flags w l = (Command w \<noteq> ''claude'', l @ [IsClaudeRunningEv w (Command w = ''claude'')])"
  by (simp add: no_claude_def mixed_answers no_flags_simps)

lemma mixed_steps:
  "deliver_step mixed no_flags ''work'' ''done'' w_main (c, l) =
     (c\<lparr>skippedNoClaude := skippedNoClaude c + 1\<rparr>,
      l @ [IsClaudeRunningEv w_main False, Print (NoClaudeAgent ''main'')])"
  "deliver_step mixed no_flags ''work'' ''done'' w_worker (c, l) =
     (c\<lparr>succeeded := succeeded c + 1\<rparr>,
      l @ [IsClaudeRunningEv w_worker True, HasPendingInputEv ''work:1'' False None,
           AddMessageEv ''work:1'' ''done'' None])"
  "deliver_step mixed no_flags ''work'' ''done'' w_build (c, l) =
     (c\<lparr>failed := failed c + 1\<rparr>,
      l @ [IsClaudeRunningEv w_build True, HasPendingInputEv ''work:2'' False None,
           AddMessageEv ''work:2'' ''done'' (Some ''no such pane''),
           Print (FailedToQueue ''build'' ''no such pane'')])"
  "deliver_step mixed no_flags ''work'' ''done'' w_review (c, l) =
     (c\<lparr>skippedTyping := skippedTyping c + 1\<rparr>,
      l @ [IsClaudeRunningEv w_review True,
           HasPendingInputEv ''work:3'' True None, SleepEv retryDelay,
           HasPendingInputEv ''work:3'' True None, SleepEv retryDelay,
           HasPendingInputEv ''work:3'' True None, Print (BusyTyping ''review'')])"
  by (simp_all add: deliver_step_def targets_simps mixed_no_claude mixed_pending_idle
      mixed_pending_busy mixed_answers window_fields Let_def has_pending_def no_flags_simps)


lemma mixed_outcomes:
  "delivery_outcome mixed no_flags ''work'' ''done'' w_main l = SkippedNoAgent"
  "delivery_outcome mixed no_flags ''work'' ''done'' w_worker l = Sent"
  "delivery_outcome mixed no_flags ''work'' ''done'' w_build l = Failed ''no such pane''"
  "delivery_outcome mixed no_flags ''work'' ''done'' w_review l = DeferredBusy"
  by (simp_all add: delivery_outcome_def targets_simps mixed_no_claude mixed_pending_idle
      mixed_pending_busy mixed_answers window_fields Let_def has_pending_def no_flags_simps)

text \<open>
  C2. One iteration of the delivery loop on a target \<open>w\<close> increments exactly the counter
  of the outcome that the specification's rule (\<open>delivery_outcome\<close>) gives the target:
  skipped-no-agent when \<open>--any\<close> is unset and the classifier rejects the window at
  delivery time, else deferred-busy when \<open>--force\<close> is unset and the pending-input check
  ends busy, else sent or failed as the send answers. The sends it adds to the log are
  those of the outcome: none for a skipped or deferred target, one for a sent or failed
  one; a skipped target is not probed either. Over a target list, every target gets one
  outcome and the counters are the numbers of outcomes of each kind. In particular
  three targets with outcomes sent, failed and deferred-busy give succeeded 1, failed 1,
  deferred 1.
\<close>

theorem delivery_outcome_rule:
  "(let st = deliver_step env fl s m w (c, l);
        oc = delivery_outcome env fl s m w l;
        es = drop (length l) (snd st)
    in fst st = count_outcome oc c \<and> snd st = l @ es \<and>
       filter is_send es = outcome_sends (target_of s w) m oc \<and>
       (oc = SkippedNoAgent \<longrightarrow> filter is_delivery es = [])) \<and>
   (let res = deliver_loop env fl s m targets (zero_counters, l);
        os = delivery_outcomes env fl s m targets l
    in length os = length targets \<and> fst res = delivery_report os \<and>
       filter is_send (drop (length l) (snd res)) = sends_of s m targets os) \<and>
   (delivery_outcomes env fl s m [a, b, d] l = [Sent, Failed reason, DeferredBusy] \<longrightarrow>
      fst (deliver_loop env fl s m [a, b, d] (zero_counters, l)) =
        \<lparr>succeeded = 1, failed = 1, skippedTyping = 1, skippedNoClaude = 0\<rparr>)"
proof -
  obtain es where es: "snd (deliver_step env fl s m w (c, l)) = l @ es"
    "filter is_send es = outcome_sends (target_of s w) m (delivery_outcome env fl s m w l)"
    "delivery_outcome env fl s m w l = SkippedNoAgent \<longrightarrow> filter is_delivery es = []"
    using deliver_step_log [of env fl s m w c l] by blast
  obtain es' where es': "snd (deliver_loop env fl s m targets (zero_counters, l)) = l @ es'"
    "filter is_send es' = sends_of s m targets (delivery_outcomes env fl s m targets l)"
    using deliver_loop_log [of env fl s m targets zero_counters l] by blast
  have loop: "fst (deliver_loop env fl s m ws (zero_counters, l)) =
      delivery_report (delivery_outcomes env fl s m ws l)" for ws
    by (simp add: deliver_loop_counters fold_count_report)
  have "delivery_outcomes env fl s m [a, b, d] l = [Sent, Failed reason, DeferredBusy] \<longrightarrow>
      fst (deliver_loop env fl s m [a, b, d] (zero_counters, l)) =
        \<lparr>succeeded = 1, failed = 1, skippedTyping = 1, skippedNoClaude = 0\<rparr>"
    by (simp only: loop) (simp add: delivery_report_def)
  then show ?thesis
    using es es' by (simp add: Let_def deliver_step_counters loop length_delivery_outcomes)
qed

theorem delivery_outcome_rule_witness:
  "delivery_outcomes mixed no_flags ''work'' ''done'' [w_worker, w_build, w_review] [] =
     [Sent, Failed ''no such pane'', DeferredBusy] \<and>
   fst (deliver_loop mixed no_flags ''work'' ''done'' [w_worker, w_build, w_review] (zero_counters, [])) =
     \<lparr>succeeded = 1, failed = 1, skippedTyping = 1, skippedNoClaude = 0\<rparr>"
proof -
  have h: "delivery_outcomes mixed no_flags ''work'' ''done'' [w_worker, w_build, w_review] [] =
     [Sent, Failed ''no such pane'', DeferredBusy]"
    by (simp add: mixed_outcomes)
  with delivery_outcome_rule [of mixed no_flags "''work''" "''done''" w_worker zero_counters "[]"
      "[]" w_worker w_build w_review "''no such pane''"]
  show ?thesis by blast
qed

text \<open>
  C10. After the delivery loop, started with all counters zero, the four counters add up
  to the number of targets; each iteration increments exactly one of them by one and
  leaves the other three unchanged.
\<close>

theorem counters_partition_targets:
  "(let c = fst (deliver_loop env fl s m targets (zero_counters, l))
    in succeeded c + failed c + skippedNoClaude c + skippedTyping c = int (length targets)) \<and>
   (let c' = fst (deliver_step env fl s m w (c, l))
    in c' = c\<lparr>succeeded := succeeded c + 1\<rparr> \<or> c' = c\<lparr>failed := failed c + 1\<rparr> \<or>
       c' = c\<lparr>skippedNoClaude := skippedNoClaude c + 1\<rparr> \<or>
       c' = c\<lparr>skippedTyping := skippedTyping c + 1\<rparr>)"
proof -
  have "total (fst (deliver_loop env fl s m targets (zero_counters, l))) = int (length targets)"
    by (simp add: deliver_loop_counters total_fold length_delivery_outcomes)
       (simp add: total_def zero_counters_def)
  moreover have "count_outcome oc c = c\<lparr>succeeded := succeeded c + 1\<rparr> \<or>
      count_outcome oc c = c\<lparr>failed := failed c + 1\<rparr> \<or>
      count_outcome oc c = c\<lparr>skippedNoClaude := skippedNoClaude c + 1\<rparr> \<or>
      count_outcome oc c = c\<lparr>skippedTyping := skippedTyping c + 1\<rparr>" for oc
    by (cases oc) simp_all
  ultimately show ?thesis
    by (simp add: Let_def deliver_step_counters total_def)
qed

theorem counters_partition_targets_witness:
  "(let c = fst (deliver_loop mixed no_flags ''work'' ''done'' [w_main, w_worker, w_build, w_review]
                   (zero_counters, []))
    in c = \<lparr>succeeded = 1, failed = 1, skippedTyping = 1, skippedNoClaude = 1\<rparr> \<and>
       succeeded c + failed c + skippedNoClaude c + skippedTyping c = 4)"
proof -
  have "fst (deliver_loop mixed no_flags ''work'' ''done'' [w_main, w_worker, w_build, w_review]
                   (zero_counters, [])) =
        \<lparr>succeeded = 1, failed = 1, skippedTyping = 1, skippedNoClaude = 1\<rparr>"
    by (simp add: mixed_steps zero_counters_def)
  with counters_partition_targets [of mixed no_flags "''work''" "''done''"
      "[w_main, w_worker, w_build, w_review]" "[]"]
  show ?thesis by (simp add: Let_def)
qed

subsection \<open>Target resolution\<close>

text \<open>The filter loop is a filter with the loop body as its predicate.\<close>

lemma found_in_iff:
  "found_in names w \<longleftrightarrow> (\<exists>n\<in>set names. Name w = n \<or> sprintf_d (Index w) = n)"
  by (induction names) auto

lemma filter_windows_acc:
  "filter_windows env fl cwi ws targets = targets @ filter (keep_window env fl cwi) ws"
  by (induction ws arbitrary: targets) simp_all

lemma filter_windows_filter:
  "filter_windows env fl cwi ws [] = filter (keep_window env fl cwi) ws"
  by (simp add: filter_windows_acc)

lemma keep_window_iff:
  "keep_window env fl cwi w \<longleftrightarrow>
     \<not> (\<not> allFlag fl \<and> 0 \<le> cwi \<and> Index w = cwi) \<and>
     (windowFlags fl = [] \<or> found_in (windowFlags fl) w) \<and>
     (patternFlag fl = [] \<or> MatchPattern env (Name w) (patternFlag fl))"
  by (auto simp: keep_window_def)

text \<open>
  C7, as stated, fails: being listed is not enough for a window to be kept. The test of
  the caller's own window (lines 303-305) comes before the test of the list and the
  pattern test (lines 322-324) after it, and each drops listed windows. With the caller
  in window 0 and the list \<open>["main", "0"]\<close>, window 0 "main" is listed by name and by
  index and is not a target: resolution returns no target at all. With the caller in
  window 1, the list \<open>["worker"]\<close> over the windows 0 "main", 1 "worker", 2 "build" gives
  no target either.
\<close>

theorem explicit_window_list_counterexample:
  "windowFlags (no_flags\<lparr>windowFlags := [''main'', ''0'']\<rparr>) \<noteq> [] \<and>
   Name w_main \<in> set (windowFlags (no_flags\<lparr>windowFlags := [''main'', ''0'']\<rparr>)) \<and>
   sprintf_d (Index w_main) \<in> set (windowFlags (no_flags\<lparr>windowFlags := [''main'', ''0'']\<rparr>)) \<and>
   w_main \<notin> set (filter_windows quiet (no_flags\<lparr>windowFlags := [''main'', ''0'']\<rparr>) 0
                     [w_main, w_worker, w_build] []) \<and>
   fst (resolve quiet (no_flags\<lparr>windowFlags := [''main'', ''0'']\<rparr>) []) = Inr (''work'', []) \<and>
   filter_windows quiet (no_flags\<lparr>windowFlags := [''worker'']\<rparr>) 1 [w_main, w_worker, w_build] []
     = []"
  by (simp add: quiet_def resolve_def determine_session_def tmux_answers_fields Let_def
      no_flags_def keep_window_def window_fields sprintf_d_digit)

text \<open>
  C7, amended. The list is one condition of the chain, and the chain keeps a window
  when all its conditions hold: when the \<open>--window\<close> list is not empty, a window of the
  session is in the target list exactly when its name or its index printed in decimal
  equals an entry of the list, and it is not the caller's excluded window, and the
  pattern, if one is set, matches its name. With the list \<open>["worker"]\<close> over the windows
  0 "main", 1 "worker", 2 "build" the target list is exactly window 1, whenever window 1
  is not the caller's excluded window and the pattern, if any, matches "worker".
\<close>

theorem explicit_window_list:
  "(windowFlags fl \<noteq> [] \<longrightarrow>
      (w \<in> set (filter_windows env fl cwi ws []) \<longleftrightarrow>
         w \<in> set ws \<and>
         (\<exists>n\<in>set (windowFlags fl). Name w = n \<or> sprintf_d (Index w) = n) \<and>
         \<not> (\<not> allFlag fl \<and> 0 \<le> cwi \<and> Index w = cwi) \<and>
         (patternFlag fl = [] \<or> MatchPattern env (Name w) (patternFlag fl)))) \<and>
   (windowFlags fl = [''worker''] \<and> (allFlag fl \<or> cwi \<noteq> 1) \<and>
    (patternFlag fl = [] \<or> MatchPattern env ''worker'' (patternFlag fl)) \<longrightarrow>
      filter_windows env fl cwi [w_main, w_worker, w_build] [] = [w_worker])"
  by (auto simp: filter_windows_filter keep_window_iff found_in_iff w_main_def w_worker_def w_build_def sprintf_d_digit)

theorem explicit_window_list_witness:
  "filter_windows quiet (no_flags\<lparr>windowFlags := [''worker'']\<rparr>) 0 [w_main, w_worker, w_build] [] =
     [w_worker] \<and>
   w_worker \<in> set (filter_windows quiet (no_flags\<lparr>windowFlags := [''build'', ''1'']\<rparr>) 0
                     [w_main, w_worker, w_build] [])"
proof -
  let ?fl = "no_flags\<lparr>windowFlags := [''worker'']\<rparr>"
  let ?fl2 = "no_flags\<lparr>windowFlags := [''build'', ''1'']\<rparr>"
  have a: "windowFlags ?fl = [''worker''] \<and> (allFlag ?fl \<or> (0::int) \<noteq> 1) \<and>
      (patternFlag ?fl = [] \<or> MatchPattern quiet ''worker'' (patternFlag ?fl))"
    by (simp add: no_flags_def)
  have b: "windowFlags ?fl2 \<noteq> []"
    by simp
  have c: "w_worker \<in> set [w_main, w_worker, w_build] \<and>
         (\<exists>n\<in>set (windowFlags ?fl2). Name w_worker = n \<or> sprintf_d (Index w_worker) = n) \<and>
         \<not> (\<not> allFlag ?fl2 \<and> 0 \<le> (0::int) \<and> Index w_worker = 0) \<and>
         (patternFlag ?fl2 = [] \<or> MatchPattern quiet (Name w_worker) (patternFlag ?fl2))"
    by (simp add: no_flags_def window_fields sprintf_d_digit)
  from explicit_window_list [where fl = ?fl and env = quiet and cwi = 0] a
  have "filter_windows quiet ?fl 0 [w_main, w_worker, w_build] [] = [w_worker]"
    by blast
  moreover
  from explicit_window_list [where fl = ?fl2 and env = quiet and cwi = 0 and w = w_worker
      and ws = "[w_main, w_worker, w_build]"] b c
  have "w_worker \<in> set (filter_windows quiet ?fl2 0 [w_main, w_worker, w_build] [])"
    by blast
  ultimately show ?thesis by blast
qed

text \<open>What resolution adds to the log: no probe, delay or send, no call of the
  classifier and no printed line.\<close>

lemma classified_append [simp]: "classified (xs @ ys) = classified xs @ classified ys"
  by (induction xs rule: classified.induct) simp_all

lemma printed_lines_append [simp]: "printed_lines (xs @ ys) = printed_lines xs @ printed_lines ys"
  by (induction xs rule: printed_lines.induct) simp_all

lemma determine_session_log:
  "\<exists>es. snd (determine_session env fl l) = l @ es \<and> filter is_delivery es = [] \<and>
        classified es = [] \<and> printed_lines es = []"
  by (simp add: determine_session_def Let_def is_delivery_def split: sum.splits prod.splits)

lemma resolve_log:
  "\<exists>es. snd (resolve env fl l) = l @ es \<and> filter is_delivery es = [] \<and>
        classified es = [] \<and> printed_lines es = []"
proof -
  obtain es where es: "snd (determine_session env fl l) = l @ es" "filter is_delivery es = []"
    "classified es = []" "printed_lines es = []"
    using determine_session_log [of env fl l] by blast
  obtain r where r: "determine_session env fl l = (r, l @ es)"
    using es(1) by (cases "determine_session env fl l") simp
  show ?thesis
  proof (cases r)
    case (Inl e)
    then have "snd (resolve env fl l) = l @ es"
      by (simp add: resolve_def r)
    with es show ?thesis by blast
  next
    case (Inr sc)
    obtain session cwi where sc: "sc = (session, cwi)"
      by (cases sc)
    let ?ex = "SessionExists env (l @ es) session"
    let ?l2 = "l @ es @ [SessionExistsEv session ?ex]"
    let ?r = "ListWindows env ?l2 session"
    let ?es2 = "es @ [SessionExistsEv session ?ex]"
    let ?es3 = "es @ [SessionExistsEv session ?ex, ListWindowsEv session ?r]"
    have shape: "snd (resolve env fl l) = l @ ?es2 \<or> snd (resolve env fl l) = l @ ?es3"
      by (simp add: resolve_def r Inr sc Let_def split: sum.splits)
    have e2: "filter is_delivery ?es2 = []" "classified ?es2 = []" "printed_lines ?es2 = []"
      using es(2-4) by (simp_all add: is_delivery_def)
    have e3: "filter is_delivery ?es3 = []" "classified ?es3 = []" "printed_lines ?es3 = []"
      using es(2-4) by (simp_all add: is_delivery_def)
    from shape show ?thesis
    proof
      assume h: "snd (resolve env fl l) = l @ ?es2"
      show ?thesis by (rule exI [of _ ?es2]) (intro conjI h e2)
    next
      assume h: "snd (resolve env fl l) = l @ ?es3"
      show ?thesis by (rule exI [of _ ?es3]) (intro conjI h e3)
    qed
  qed
qed

lemma resolve_tmux_answers:
  "sessionFlag fl = [] \<or> sessionFlag fl = ''swarm'' \<Longrightarrow>
   resolve (tmux_answers cl pe ad ws) fl l =
     (Inr (if sessionFlag fl = [] then ''work'' else sessionFlag fl,
           filter (keep_window (tmux_answers cl pe ad ws) fl (if sessionFlag fl = [] then 0 else - 1)) ws),
      l @ [IsInsideTmuxEv True, GetCurrentContextEv (Inr (''work'', 0, ''%0'')),
           SessionExistsEv (if sessionFlag fl = [] then ''work'' else sessionFlag fl) True,
           ListWindowsEv (if sessionFlag fl = [] then ''work'' else sessionFlag fl) (Inr ws)])"
  by (auto simp: resolve_def determine_session_def tmux_answers_fields Let_def filter_windows_filter)

text \<open>
  C6. Inside the multiplexer, with a session named by \<open>--session\<close>, the index to exclude
  is the sentinel \<open>-1\<close> whatever the invoking window's index is. With that sentinel the
  filter loop keeps every window that passes the \<open>--window\<close> list and the pattern: none
  is dropped as the caller's own window, also not one whose index equals the invoking
  window's. When the named session exists and its windows are listed, that is the
  target list resolution returns.
\<close>

theorem explicit_session_disables_self_exclusion:
  "IsInsideTmux env l \<Longrightarrow>
   GetCurrentContext env (l @ [IsInsideTmuxEv True]) = Inr (currentSession, currentWindowIdx, paneID) \<Longrightarrow>
   sessionFlag fl \<noteq> [] \<Longrightarrow>
     fst (determine_session env fl l) = Inr (sessionFlag fl, - 1) \<and>
     filter_windows env fl (- 1) ws [] =
       filter (\<lambda>w. (windowFlags fl = [] \<or>
                     (\<exists>n\<in>set (windowFlags fl). Name w = n \<or> sprintf_d (Index w) = n)) \<and>
                    (patternFlag fl = [] \<or> MatchPattern env (Name w) (patternFlag fl))) ws \<and>
     (let l2 = l @ [IsInsideTmuxEv True,
                    GetCurrentContextEv (Inr (currentSession, currentWindowIdx, paneID))];
          l3 = l2 @ [SessionExistsEv (sessionFlag fl) True]
      in SessionExists env l2 (sessionFlag fl) \<and> ListWindows env l3 (sessionFlag fl) = Inr ws \<longrightarrow>
           fst (resolve env fl l) = Inr (sessionFlag fl, filter_windows env fl (- 1) ws []))"
proof -
  assume inside: "IsInsideTmux env l"
    and ctx: "GetCurrentContext env (l @ [IsInsideTmuxEv True]) =
                Inr (currentSession, currentWindowIdx, paneID)"
    and flag: "sessionFlag fl \<noteq> []"
  have ds: "determine_session env fl l =
      (Inr (sessionFlag fl, - 1),
       l @ [IsInsideTmuxEv True,
            GetCurrentContextEv (Inr (currentSession, currentWindowIdx, paneID))])"
    using inside ctx flag by (simp add: determine_session_def Let_def)
  have keep: "keep_window env fl (- 1) w \<longleftrightarrow>
      (windowFlags fl = [] \<or> (\<exists>n\<in>set (windowFlags fl). Name w = n \<or> sprintf_d (Index w) = n)) \<and>
      (patternFlag fl = [] \<or> MatchPattern env (Name w) (patternFlag fl))" for w
    by (simp add: keep_window_iff found_in_iff)
  have res: "(let l2 = l @ [IsInsideTmuxEv True,
                    GetCurrentContextEv (Inr (currentSession, currentWindowIdx, paneID))];
          l3 = l2 @ [SessionExistsEv (sessionFlag fl) True]
      in SessionExists env l2 (sessionFlag fl) \<and> ListWindows env l3 (sessionFlag fl) = Inr ws \<longrightarrow>
           fst (resolve env fl l) = Inr (sessionFlag fl, filter_windows env fl (- 1) ws []))"
    by (simp add: resolve_def ds Let_def)
  have "filter (keep_window env fl (- 1)) ws =
      filter (\<lambda>w. (windowFlags fl = [] \<or>
                     (\<exists>n\<in>set (windowFlags fl). Name w = n \<or> sprintf_d (Index w) = n)) \<and>
                    (patternFlag fl = [] \<or> MatchPattern env (Name w) (patternFlag fl))) ws"
    by (rule filter_cong) (simp_all add: keep)
  then show ?thesis
    using res by (simp add: ds filter_windows_filter)
qed

theorem explicit_session_disables_self_exclusion_witness:
  "fst (resolve quiet (no_flags\<lparr>sessionFlag := ''swarm'', anyFlag := True\<rparr>) []) =
     Inr (''swarm'', [w_main, w_worker, w_build]) \<and>
   Index w_main = 0 \<and>
   GetCurrentContext quiet [IsInsideTmuxEv True] = Inr (''work'', 0, ''%0'')"
proof -
  let ?fl = "no_flags\<lparr>sessionFlag := ''swarm'', anyFlag := True\<rparr>"
  have inside: "IsInsideTmux quiet []"
    and ctx: "GetCurrentContext quiet ([] @ [IsInsideTmuxEv True]) = Inr (''work'', 0, ''%0'')"
    and flag: "sessionFlag ?fl \<noteq> []"
    by (simp_all add: quiet_def tmux_answers_fields)
  have ex: "SessionExists quiet l ''swarm''" "ListWindows quiet l ''swarm'' = Inr [w_main, w_worker, w_build]" for l
    by (simp_all add: quiet_def tmux_answers_fields)
  from explicit_session_disables_self_exclusion [OF inside ctx flag, of "[w_main, w_worker, w_build]"]
  have "fst (resolve quiet ?fl []) = Inr (''swarm'', [w_main, w_worker, w_build])"
    by (simp add: ex Let_def no_flags_def)
  then show ?thesis
    using ctx by (simp add: window_fields)
qed

subsection \<open>No targets, and the dry run\<close>

lemma dry_run_loop_log:
  "\<exists>es. dry_run_loop env ws l = l @ es \<and> filter is_delivery es = [] \<and>
        map fst (classified es) = ws \<and> printed_lines es = map dry_run_line (classified es)"
proof (induction ws arbitrary: l)
  case Nil
  show ?case by simp
next
  case (Cons w ws)
  let ?b = "IsClaudeRunning env l w"
  let ?es1 = "[IsClaudeRunningEv w ?b,
               Print (WouldQueueWindow (Index w) (Name w) (Command w) (if ?b then '' [claude]'' else []))]"
  obtain es where es: "dry_run_loop env ws (l @ ?es1) = (l @ ?es1) @ es"
    "filter is_delivery es = []" "map fst (classified es) = ws"
    "printed_lines es = map dry_run_line (classified es)"
    using Cons.IH [of "l @ ?es1"] by blast
  have a: "dry_run_loop env (w # ws) l = l @ (?es1 @ es)"
    using es(1) by (simp add: Let_def)
  have b: "filter is_delivery (?es1 @ es) = []"
    using es(2) by (simp add: is_delivery_def)
  have c: "map fst (classified (?es1 @ es)) = w # ws"
    using es(3) by simp
  have d: "printed_lines (?es1 @ es) = map dry_run_line (classified (?es1 @ es))"
    using es(4) by (simp add: dry_run_line_def)
  show ?case
    by (rule exI [of _ "?es1 @ es"]) (intro conjI a b c d)
qed

text \<open>
  C8. When the filter loop leaves no target, \<open>runAdd\<close> prints "No windows to send
  message to" and returns nil. The run has then made no probe, delay or send, has not
  called the classifier and has printed nothing else: no dry-run rendering and no
  delivery took place.
\<close>

theorem no_targets_is_success:
  "resolve env fl l = (Inr (session, []), l1) \<Longrightarrow>
     runAdd env fl args l = (None, l1 @ [Print NoWindowsToSend]) \<and>
     (let es = drop (length l) (snd (runAdd env fl args l))
      in snd (runAdd env fl args l) = l @ es \<and> filter is_delivery es = [] \<and>
         classified es = [] \<and> printed_lines es = [NoWindowsToSend])"
proof -
  assume r: "resolve env fl l = (Inr (session, []), l1)"
  obtain es where es: "snd (resolve env fl l) = l @ es" "filter is_delivery es = []"
    "classified es = []" "printed_lines es = []"
    using resolve_log [of env fl l] by blast
  from r es(1) have l1: "l1 = l @ es" by simp
  have run: "runAdd env fl args l = (None, l1 @ [Print NoWindowsToSend])"
    by (simp add: runAdd_def r)
  show ?thesis
    unfolding run by (simp add: l1 es is_delivery_def)
qed

theorem no_targets_is_success_witness:
  "runAdd quiet (no_flags\<lparr>windowFlags := [''editor'']\<rparr>) [''done''] [] =
     (None,
      [IsInsideTmuxEv True, GetCurrentContextEv (Inr (''work'', 0, ''%0'')),
       SessionExistsEv ''work'' True, ListWindowsEv ''work'' (Inr [w_main, w_worker, w_build]),
       Print NoWindowsToSend])"
proof -
  let ?fl = "no_flags\<lparr>windowFlags := [''editor'']\<rparr>"
  let ?l1 = "[IsInsideTmuxEv True, GetCurrentContextEv (Inr (''work'', 0, ''%0'')),
       SessionExistsEv ''work'' True, ListWindowsEv ''work'' (Inr [w_main, w_worker, w_build])]"
  have "resolve quiet ?fl [] = (Inr (''work'', []), ?l1)"
    by (simp add: quiet_def resolve_tmux_answers no_flags_def keep_window_def window_fields
        sprintf_d_digit)
  from no_targets_is_success [OF this, of "[''done'']"] show ?thesis
    by simp
qed

text \<open>
  C9. With \<open>--dry-run\<close> set, a run makes no probe, no delay and no send, however it ends.
  When resolution succeeds with a target list that is not empty, the run returns nil and
  prints the header with the number of targets and the session, then one line per
  target, in order, marked \<open>[claude]\<close> exactly when the classifier, asked about that
  window at that moment, said yes, then the message.
\<close>

theorem dry_run_delivers_nothing:
  "dryRunFlag fl \<Longrightarrow>
     (let res = runAdd env fl args l; es = drop (length l) (snd res)
      in snd res = l @ es \<and> filter is_delivery es = []) \<and>
     (resolve env fl l = (Inr (session, targets), l1) \<and> targets \<noteq> [] \<longrightarrow>
        (let res = runAdd env fl args l; es = drop (length l1) (snd res)
         in fst res = None \<and> snd res = l1 @ es \<and> map fst (classified es) = targets \<and>
            printed_lines es =
              WouldQueue (int (length targets)) session # map dry_run_line (classified es)
                @ [WouldQueueMessage (strings_Join args '' '')]))"
proof -
  assume dry: "dryRunFlag fl"
  obtain es0 where es0: "snd (resolve env fl l) = l @ es0" "filter is_delivery es0 = []"
    using resolve_log [of env fl l] by blast
  obtain r where r: "resolve env fl l = (r, l @ es0)"
    using es0(1) by (cases "resolve env fl l") simp
  have rendered: "fst (runAdd env fl args l) = None \<and>
      snd (runAdd env fl args l) =
        (l @ es0) @ ([Print (WouldQueue (int (length ts)) s)] @ es @ [Print (WouldQueueMessage (strings_Join args '' ''))])"
    if "r = Inr (s, ts)" "ts \<noteq> []"
      "dry_run_loop env ts ((l @ es0) @ [Print (WouldQueue (int (length ts)) s)]) =
         ((l @ es0) @ [Print (WouldQueue (int (length ts)) s)]) @ es" for s ts es
    using that dry by (simp add: runAdd_def r)
  have first: "\<exists>es. snd (runAdd env fl args l) = l @ es \<and> filter is_delivery es = []"
  proof (cases r)
    case (Inl e)
    then have "snd (runAdd env fl args l) = l @ es0"
      by (simp add: runAdd_def r)
    with es0(2) show ?thesis by blast
  next
    case (Inr st)
    obtain s ts where st: "st = (s, ts)" by (cases st)
    show ?thesis
    proof (cases "ts = []")
      case True
      then have "snd (runAdd env fl args l) = l @ (es0 @ [Print NoWindowsToSend])"
        by (simp add: runAdd_def r Inr st)
      moreover have "filter is_delivery (es0 @ [Print NoWindowsToSend]) = []"
        using es0(2) by (simp add: is_delivery_def)
      ultimately show ?thesis by blast
    next
      case False
      let ?h = "Print (WouldQueue (int (length ts)) s)"
      obtain es where es: "dry_run_loop env ts ((l @ es0) @ [?h]) = ((l @ es0) @ [?h]) @ es"
        "filter is_delivery es = []"
        using dry_run_loop_log [of env ts "(l @ es0) @ [?h]"] by blast
      let ?es = "es0 @ [?h] @ es @ [Print (WouldQueueMessage (strings_Join args '' ''))]"
      have "snd (runAdd env fl args l) = l @ ?es"
        using rendered [OF _ False es(1)] Inr st by simp
      moreover have "filter is_delivery ?es = []"
        using es0(2) es(2) by (simp add: is_delivery_def)
      ultimately show ?thesis by blast
    qed
  qed
  have second: "fst (runAdd env fl args l) = None \<and>
      (\<exists>es. snd (runAdd env fl args l) = l1 @ es \<and> map fst (classified es) = targets \<and>
         printed_lines es =
              WouldQueue (int (length targets)) session # map dry_run_line (classified es)
                @ [WouldQueueMessage (strings_Join args '' '')])"
    if res: "resolve env fl l = (Inr (session, targets), l1)" and ne: "targets \<noteq> []"
  proof -
    from res r have r': "r = Inr (session, targets)" and l1: "l1 = l @ es0" by simp_all
    let ?h = "Print (WouldQueue (int (length targets)) session)"
    obtain es where es: "dry_run_loop env targets ((l @ es0) @ [?h]) = ((l @ es0) @ [?h]) @ es"
      "map fst (classified es) = targets" "printed_lines es = map dry_run_line (classified es)"
      using dry_run_loop_log [of env targets "(l @ es0) @ [?h]"] by blast
    let ?es = "[?h] @ es @ [Print (WouldQueueMessage (strings_Join args '' ''))]"
    have a: "snd (runAdd env fl args l) = l1 @ ?es"
      using rendered [OF r' ne es(1)] l1 by simp
    have b: "map fst (classified ?es) = targets"
      using es(2) by simp
    have c: "printed_lines ?es =
        WouldQueue (int (length targets)) session # map dry_run_line (classified ?es)
          @ [WouldQueueMessage (strings_Join args '' '')]"
      using es(3) by simp
    show ?thesis
      using rendered [OF r' ne es(1)] a b c by blast
  qed
  from first obtain es where es: "snd (runAdd env fl args l) = l @ es" "filter is_delivery es = []"
    by blast
  have A: "(let res = runAdd env fl args l; es = drop (length l) (snd res)
      in snd res = l @ es \<and> filter is_delivery es = [])"
    by (simp add: Let_def es)
  have B: "(let res = runAdd env fl args l; es = drop (length l1) (snd res)
         in fst res = None \<and> snd res = l1 @ es \<and> map fst (classified es) = targets \<and>
            printed_lines es =
              WouldQueue (int (length targets)) session # map dry_run_line (classified es)
                @ [WouldQueueMessage (strings_Join args '' '')])"
    if res: "resolve env fl l = (Inr (session, targets), l1)" and ne: "targets \<noteq> []"
  proof -
    from second [OF res ne] obtain es' where es': "fst (runAdd env fl args l) = None"
      "snd (runAdd env fl args l) = l1 @ es'" "map fst (classified es') = targets"
      "printed_lines es' =
              WouldQueue (int (length targets)) session # map dry_run_line (classified es')
                @ [WouldQueueMessage (strings_Join args '' '')]"
      by blast
    show ?thesis
      by (simp add: Let_def es')
  qed
  from A B show ?thesis by blast
qed

theorem dry_run_delivers_nothing_witness:
  "runAdd quiet (no_flags\<lparr>dryRunFlag := True\<rparr>) [''tests'', ''passed''] [] =
     (None,
      [IsInsideTmuxEv True, GetCurrentContextEv (Inr (''work'', 0, ''%0'')),
       SessionExistsEv ''work'' True, ListWindowsEv ''work'' (Inr [w_main, w_worker, w_build]),
       Print (WouldQueue 2 ''work''),
       IsClaudeRunningEv w_worker True, Print (WouldQueueWindow 1 ''worker'' ''claude'' '' [claude]''),
       IsClaudeRunningEv w_build True, Print (WouldQueueWindow 2 ''build'' ''claude'' '' [claude]''),
       Print (WouldQueueMessage ''tests passed'')]) \<and>
   filter is_delivery (snd (runAdd quiet (no_flags\<lparr>dryRunFlag := True\<rparr>) [''tests'', ''passed''] [])) = []"
proof -
  let ?fl = "no_flags\<lparr>dryRunFlag := True\<rparr>"
  let ?l1 = "[IsInsideTmuxEv True, GetCurrentContextEv (Inr (''work'', 0, ''%0'')),
       SessionExistsEv ''work'' True, ListWindowsEv ''work'' (Inr [w_main, w_worker, w_build])]"
  have dry: "dryRunFlag ?fl"
    by simp
  have res: "resolve quiet ?fl [] = (Inr (''work'', [w_worker, w_build]), ?l1)"
    by (simp add: quiet_def resolve_tmux_answers no_flags_def keep_window_def window_fields)
  have run: "runAdd quiet ?fl [''tests'', ''passed''] [] =
     (None,
      [IsInsideTmuxEv True, GetCurrentContextEv (Inr (''work'', 0, ''%0'')),
       SessionExistsEv ''work'' True, ListWindowsEv ''work'' (Inr [w_main, w_worker, w_build]),
       Print (WouldQueue 2 ''work''),
       IsClaudeRunningEv w_worker True, Print (WouldQueueWindow 1 ''worker'' ''claude'' '' [claude]''),
       IsClaudeRunningEv w_build True, Print (WouldQueueWindow 2 ''build'' ''claude'' '' [claude]''),
       Print (WouldQueueMessage ''tests passed'')])"
    by (simp add: runAdd_def res Let_def)
       (simp add: quiet_def tmux_answers_fields by_command_def window_fields)
  from dry_run_delivers_nothing [OF dry, of quiet "[''tests'', ''passed'']" "[]"]
  have "filter is_delivery (snd (runAdd quiet ?fl [''tests'', ''passed''] [])) = []"
    by (simp add: Let_def)
  with run show ?thesis by blast
qed

subsection \<open>The report\<close>

lemma report_result:
  "fst (report c l) = (if failed c > 0 then Some (MessagesFailed (failed c)) else None)"
  by (simp add: report_def Let_def)

lemma report_log:
  "snd (report c l) =
     l @ [Print (if failed c > 0 \<or> skippedTyping c + skippedNoClaude c > 0
                 then TallyLine (strings_Join (tally_parts c) '', '')
                 else QueuedTo (succeeded c))]"
  by (simp add: report_def Let_def)

subsection \<open>The result of a run\<close>

text \<open>The failed counter is the number of sends that returned an error.\<close>

lemma failed_send_is_send: "filter is_failed_send (filter is_send es) = filter is_failed_send es"
proof (induction es)
  case Nil
  show ?case by simp
next
  case (Cons e es)
  then show ?case by (cases e rule: is_failed_send.cases) simp_all
qed

lemma failed_sends_of:
  "length ws = length os \<Longrightarrow>
   length (filter is_failed_send (sends_of s m ws os)) = length (filter is_Failed os)"
proof (induction ws os rule: list_induct2)
  case Nil
  show ?case by simp
next
  case (Cons w ws oc os)
  then show ?case by (cases oc) simp_all
qed

lemma all_skipped_sends_of:
  "length ws = length os \<Longrightarrow> sends_of s m ws os = [] \<Longrightarrow>
   filter (\<lambda>oc. oc = Sent) os = [] \<and> filter is_Failed os = []"
proof (induction ws os rule: list_induct2)
  case Nil
  show ?case by simp
next
  case (Cons w ws oc os)
  then show ?case by (cases oc) simp_all
qed

lemma deliver_loop_failed:
  "\<exists>es. snd (deliver_loop env fl s m ws (zero_counters, l)) = l @ es \<and>
        failed (fst (deliver_loop env fl s m ws (zero_counters, l))) =
          int (length (filter is_failed_send es)) \<and>
        (filter is_send es = [] \<longrightarrow>
           succeeded (fst (deliver_loop env fl s m ws (zero_counters, l))) = 0)"
proof -
  let ?os = "delivery_outcomes env fl s m ws l"
  obtain es where es: "snd (deliver_loop env fl s m ws (zero_counters, l)) = l @ es"
    "filter is_send es = sends_of s m ws ?os"
    using deliver_loop_log [of env fl s m ws zero_counters l] by blast
  have c: "fst (deliver_loop env fl s m ws (zero_counters, l)) = delivery_report ?os"
    by (simp add: deliver_loop_counters fold_count_report)
  have len: "length ws = length ?os"
    by (simp add: length_delivery_outcomes)
  have "length (filter is_failed_send es) = length (filter is_Failed ?os)"
    using failed_sends_of [OF len, of s m] es(2) failed_send_is_send [of es] by simp
  then have f: "failed (fst (deliver_loop env fl s m ws (zero_counters, l))) =
      int (length (filter is_failed_send es))"
    by (simp add: c delivery_report_def)
  have g: "filter is_send es = [] \<longrightarrow>
      succeeded (fst (deliver_loop env fl s m ws (zero_counters, l))) = 0"
    using all_skipped_sends_of [OF len, of s m] es(2) by (simp add: c delivery_report_def)
  show ?thesis
    by (rule exI [of _ es]) (intro conjI es(1) f g)
qed

lemma runAdd_delivery:
  "resolve env fl l = (Inr (session, targets), l1) \<Longrightarrow> targets \<noteq> [] \<Longrightarrow> \<not> dryRunFlag fl \<Longrightarrow>
   runAdd env fl args l =
     report (fst (deliver_loop env fl session (strings_Join args '' '') targets (zero_counters, l1)))
            (snd (deliver_loop env fl session (strings_Join args '' '') targets (zero_counters, l1)))"
  by (simp add: runAdd_def Let_def split_beta)


lemma total_delivery_report: "total (delivery_report os) = int (length os)"
  using total_fold [of os zero_counters]
  by (simp add: fold_count_report) (simp add: total_def zero_counters_def)

text \<open>
  C4. A run of \<open>runAdd\<close> that reaches delivery (resolution succeeded, the target list is
  not empty, no dry run) returns an error exactly when its log holds a send that
  returned an error; the error then carries the number of such sends, and \<open>main\<close>,
  handed that result, exits with status 1, otherwise with 0. When no send was attempted,
  so that every target was skipped for want of an agent or deferred as busy, the run
  returns nil and its last line is the tally of the skipped and deferred targets, which
  together are all the targets.
\<close>

theorem run_fails_iff_send_failed:
  "resolve env fl l = (Inr (session, targets), l1) \<Longrightarrow> targets \<noteq> [] \<Longrightarrow> \<not> dryRunFlag fl \<Longrightarrow>
   (let res = runAdd env fl args l;
        es = drop (length l1) (snd res);
        n = int (length (filter is_failed_send es));
        c = delivery_report (delivery_outcomes env fl session (strings_Join args '' '') targets l1)
    in snd res = l1 @ es \<and>
       (fst res \<noteq> None \<longleftrightarrow> (\<exists>e\<in>set es. is_failed_send e)) \<and>
       fst res = (if n > 0 then Some (MessagesFailed n) else None) \<and>
       (filter is_send es = [] \<longrightarrow>
          fst res = None \<and> succeeded c = 0 \<and> failed c = 0 \<and>
          skippedNoClaude c + skippedTyping c = int (length targets) \<and>
          last es = Print (TallyLine (strings_Join (tally_parts c) '', ''))) \<and>
       main (fst res) = (if n > 0 then 1 else 0))"
proof -
  assume res: "resolve env fl l = (Inr (session, targets), l1)"
    and ne: "targets \<noteq> []" and nodry: "\<not> dryRunFlag fl"
  let ?m = "strings_Join args '' ''"
  let ?loop = "deliver_loop env fl session ?m targets (zero_counters, l1)"
  let ?os = "delivery_outcomes env fl session ?m targets l1"
  let ?c = "delivery_report ?os"
  obtain es where es: "snd ?loop = l1 @ es"
    "failed (fst ?loop) = int (length (filter is_failed_send es))"
    "filter is_send es = [] \<longrightarrow> succeeded (fst ?loop) = 0"
    using deliver_loop_failed [of env fl session ?m targets l1] by blast
  have c: "fst ?loop = ?c"
    by (simp add: deliver_loop_counters fold_count_report)
  have run: "runAdd env fl args l = report ?c (l1 @ es)"
    using runAdd_delivery [OF res ne nodry, of args] by (simp add: c es(1))
  let ?line = "Print (if failed ?c > 0 \<or> skippedTyping ?c + skippedNoClaude ?c > 0
                 then TallyLine (strings_Join (tally_parts ?c) '', '')
                 else QueuedTo (succeeded ?c))"
  have log: "snd (runAdd env fl args l) = l1 @ (es @ [?line])"
    by (simp add: run report_log)
  have fs: "filter is_failed_send (es @ [?line]) = filter is_failed_send es"
    "filter is_send (es @ [?line]) = filter is_send es"
    by simp_all
  have n: "failed ?c = int (length (filter is_failed_send (es @ [?line])))"
    using es(2) unfolding fs(1) c .
  let ?es = "es @ [?line]"
  let ?n = "int (length (filter is_failed_send ?es))"
  have d: "drop (length l1) (snd (runAdd env fl args l)) = ?es"
    by (simp add: log)
  have result: "fst (runAdd env fl args l) = (if ?n > 0 then Some (MessagesFailed ?n) else None)"
    unfolding n [symmetric] by (simp add: run report_result)
  have ex: "fst (runAdd env fl args l) \<noteq> None \<longleftrightarrow> (\<exists>e\<in>set ?es. is_failed_send e)"
  proof -
    have "(\<exists>e\<in>set ?es. is_failed_send e) \<longleftrightarrow> filter is_failed_send ?es \<noteq> []"
      by (simp only: filter_empty_conv) blast
    also have "\<dots> \<longleftrightarrow> ?n > 0"
      by simp
    also have "\<dots> \<longleftrightarrow> fst (runAdd env fl args l) \<noteq> None"
      using result by (cases "?n > 0") simp_all
    finally show ?thesis by simp
  qed
  have quietcase: "filter is_send ?es = [] \<longrightarrow>
          fst (runAdd env fl args l) = None \<and> succeeded ?c = 0 \<and> failed ?c = 0 \<and>
          skippedNoClaude ?c + skippedTyping ?c = int (length targets) \<and>
          last ?es = Print (TallyLine (strings_Join (tally_parts ?c) '', ''))"
  proof
    assume nosend: "filter is_send ?es = []"
    then have ns: "filter is_send es = []" by (simp only: fs)
    then have s0: "succeeded ?c = 0"
      using es(3) c by simp
    have "filter is_failed_send es = []"
      using failed_send_is_send [of es] ns by simp
    then have f0: "failed ?c = 0"
      using es(2) c by simp
    have "total ?c = int (length targets)"
      by (simp add: total_delivery_report length_delivery_outcomes)
    then have sk: "skippedNoClaude ?c + skippedTyping ?c = int (length targets)"
      using s0 f0 by (simp add: total_def)
    then have pos: "skippedTyping ?c + skippedNoClaude ?c > 0"
      using ne by (cases targets) simp_all
    have "fst (runAdd env fl args l) = None"
      using f0 by (simp add: run report_result)
    moreover have "last ?es = Print (TallyLine (strings_Join (tally_parts ?c) '', ''))"
      using pos by simp
    ultimately show "fst (runAdd env fl args l) = None \<and> succeeded ?c = 0 \<and> failed ?c = 0 \<and>
          skippedNoClaude ?c + skippedTyping ?c = int (length targets) \<and>
          last ?es = Print (TallyLine (strings_Join (tally_parts ?c) '', ''))"
      using s0 f0 sk by simp
  qed
  have exit: "main (fst (runAdd env fl args l)) = (if ?n > 0 then 1 else 0)"
    using result by (cases "?n > 0") (simp_all add: main_def)
  show ?thesis
    unfolding Let_def d
    by (intro conjI log ex result quietcase exit)
qed

lemma mixed_resolve:
  "resolve mixed no_flags [] =
     (Inr (''work'', [w_worker, w_build, w_review]),
      [IsInsideTmuxEv True, GetCurrentContextEv (Inr (''work'', 0, ''%0'')),
       SessionExistsEv ''work'' True,
       ListWindowsEv ''work'' (Inr [w_main, w_worker, w_build, w_review])])"
  "resolve mixed (no_flags\<lparr>windowFlags := [''review'']\<rparr>) [] =
     (Inr (''work'', [w_review]),
      [IsInsideTmuxEv True, GetCurrentContextEv (Inr (''work'', 0, ''%0'')),
       SessionExistsEv ''work'' True,
       ListWindowsEv ''work'' (Inr [w_main, w_worker, w_build, w_review])])"
  by (simp_all add: mixed_def resolve_tmux_answers no_flags_def keep_window_def window_fields
      sprintf_d_digit)

lemma mixed_run:
  "runAdd mixed no_flags [''done''] [] =
     (Some (MessagesFailed 1),
      [IsInsideTmuxEv True, GetCurrentContextEv (Inr (''work'', 0, ''%0'')),
       SessionExistsEv ''work'' True,
       ListWindowsEv ''work'' (Inr [w_main, w_worker, w_build, w_review]),
       IsClaudeRunningEv w_worker True, HasPendingInputEv ''work:1'' False None,
       AddMessageEv ''work:1'' ''done'' None,
       IsClaudeRunningEv w_build True, HasPendingInputEv ''work:2'' False None,
       AddMessageEv ''work:2'' ''done'' (Some ''no such pane''),
       Print (FailedToQueue ''build'' ''no such pane''),
       IsClaudeRunningEv w_review True,
       HasPendingInputEv ''work:3'' True None, SleepEv retryDelay,
       HasPendingInputEv ''work:3'' True None, SleepEv retryDelay,
       HasPendingInputEv ''work:3'' True None, Print (BusyTyping ''review''),
       Print (TallyLine ''queued to 1, 1 deferred (user typing), 1 failed'')])"
  by (simp add: runAdd_def mixed_resolve mixed_steps no_flags_simps zero_counters_def report_def
      tally_parts_def sprintf_d_digit Let_def)

theorem run_fails_iff_send_failed_witness:
  "fst (runAdd mixed no_flags [''done''] []) = Some (MessagesFailed 1) \<and>
   main (fst (runAdd mixed no_flags [''done''] [])) = 1 \<and>
   fst (runAdd mixed (no_flags\<lparr>windowFlags := [''review'']\<rparr>) [''done''] []) = None \<and>
   last (snd (runAdd mixed (no_flags\<lparr>windowFlags := [''review'']\<rparr>) [''done''] [])) =
     Print (TallyLine ''1 deferred (user typing)'')"
proof -
  let ?fl = "no_flags\<lparr>windowFlags := [''review'']\<rparr>"
  let ?l1 = "[IsInsideTmuxEv True, GetCurrentContextEv (Inr (''work'', 0, ''%0'')),
       SessionExistsEv ''work'' True,
       ListWindowsEv ''work'' (Inr [w_main, w_worker, w_build, w_review])]"
  have ne: "[w_worker, w_build, w_review] \<noteq> []" "[w_review] \<noteq> []"
    and nodry: "\<not> dryRunFlag no_flags" "\<not> dryRunFlag ?fl"
    by (simp_all add: no_flags_def)
  from run_fails_iff_send_failed [OF mixed_resolve(1) ne(1) nodry(1), of "[''done'']"]
  have first: "fst (runAdd mixed no_flags [''done''] []) = Some (MessagesFailed 1) \<and>
      main (fst (runAdd mixed no_flags [''done''] [])) = 1"
    by (simp add: Let_def mixed_run)
  have step: "deliver_step mixed ?fl ''work'' ''done'' w_review (c, l) =
      deliver_step mixed no_flags ''work'' ''done'' w_review (c, l)" for c l
    by (simp add: deliver_step_def no_claude_def has_pending_def no_flags_def Let_def)
  have run: "snd (runAdd mixed ?fl [''done''] []) =
      ?l1 @ [IsClaudeRunningEv w_review True,
       HasPendingInputEv ''work:3'' True None, SleepEv retryDelay,
       HasPendingInputEv ''work:3'' True None, SleepEv retryDelay,
       HasPendingInputEv ''work:3'' True None, Print (BusyTyping ''review''),
       Print (TallyLine ''1 deferred (user typing)'')]"
    by (simp add: runAdd_def mixed_resolve step mixed_steps zero_counters_def report_def
        tally_parts_def sprintf_d_digit Let_def no_flags_simps)
  from run_fails_iff_send_failed [OF mixed_resolve(2) ne(2) nodry(2), of "[''done'']"]
  have second: "fst (runAdd mixed ?fl [''done''] []) = None"
    by (simp add: Let_def run no_flags_simps)
  have "last (snd (runAdd mixed ?fl [''done''] [])) = Print (TallyLine ''1 deferred (user typing)'')"
    by (simp add: run)
  with first second show ?thesis
    by blast
qed

subsection \<open>Errors of the probe\<close>











subsection \<open>Where agent windows are selected\<close>

lemma keep_window_classifier:
  "keep_window (env\<lparr>IsClaudeRunning := classifier\<rparr>) = keep_window env"
  by (intro ext) (simp add: keep_window_def)

lemma determine_session_classifier:
  "determine_session (env\<lparr>IsClaudeRunning := classifier\<rparr>) fl l = determine_session env fl l"
  by (simp add: determine_session_def Let_def)

lemma resolve_classifier:
  "resolve (env\<lparr>IsClaudeRunning := classifier\<rparr>) fl l = resolve env fl l"
  by (simp add: resolve_def determine_session_classifier filter_windows_filter
      keep_window_classifier Let_def split: prod.splits sum.splits)

lemma quiet_all_resolve:
  "resolve quiet (no_flags\<lparr>allFlag := True\<rparr>) [] =
     (Inr (''work'', [w_main, w_worker, w_build]),
      [IsInsideTmuxEv True, GetCurrentContextEv (Inr (''work'', 0, ''%0'')),
       SessionExistsEv ''work'' True, ListWindowsEv ''work'' (Inr [w_main, w_worker, w_build])])"
  "resolve quiet (no_flags\<lparr>allFlag := True, dryRunFlag := True\<rparr>) [] =
     (Inr (''work'', [w_main, w_worker, w_build]),
      [IsInsideTmuxEv True, GetCurrentContextEv (Inr (''work'', 0, ''%0'')),
       SessionExistsEv ''work'' True, ListWindowsEv ''work'' (Inr [w_main, w_worker, w_build])])"
  by (simp_all add: quiet_def resolve_tmux_answers no_flags_def keep_window_def)

text \<open>
  C1, as stated, fails: the filter loop of \<open>runAdd\<close> (lines 301-327) has three tests,
  the caller's own window, the \<open>--window\<close> list and the pattern, and none asks the
  classifier. With \<open>--all\<close> and without \<open>--any\<close>, window 0 "main", which runs a shell
  and which the classifier rejects, is in the resolved target list, and the dry run
  prints it, without the \<open>[claude]\<close> mark.
\<close>

theorem resolved_list_keeps_non_agent_counterexample:
  "\<not> anyFlag (no_flags\<lparr>allFlag := True\<rparr>) \<and>
   fst (resolve quiet (no_flags\<lparr>allFlag := True\<rparr>) []) = Inr (''work'', [w_main, w_worker, w_build]) \<and>
   \<not> IsClaudeRunning quiet (snd (resolve quiet (no_flags\<lparr>allFlag := True\<rparr>) [])) w_main \<and>
   printed_lines (snd (runAdd quiet (no_flags\<lparr>allFlag := True, dryRunFlag := True\<rparr>) [''done''] [])) =
     [WouldQueue 3 ''work'',
      WouldQueueWindow 0 ''main'' ''bash'' [],
      WouldQueueWindow 1 ''worker'' ''claude'' '' [claude]'',
      WouldQueueWindow 2 ''build'' ''claude'' '' [claude]'',
      WouldQueueMessage ''done'']"
  by (simp add: quiet_all_resolve runAdd_def no_flags_simps Let_def)
     (simp add: quiet_def tmux_answers_fields by_command_def window_fields)

text \<open>In the delivery loop without \<open>--any\<close>, the events of an iteration that sends hold
  the classifier's yes for its target.\<close>

lemma no_send_in:
  "filter is_delivery es = [] \<Longrightarrow> AddMessageEv t m r \<notin> set es"
  "filter is_send es = [] \<Longrightarrow> AddMessageEv t m r \<notin> set es"
  by (auto simp: filter_empty_conv is_delivery_def)

lemma deliver_step_sends_classified:
  assumes "\<not> anyFlag fl"
  shows "\<exists>es. snd (deliver_step env fl s m w (c, l)) = l @ es \<and>
           (\<forall>t m' r. AddMessageEv t m' r \<in> set es \<longrightarrow>
              t = target_of s w \<and> IsClaudeRunningEv w True \<in> set es)"
proof -
  let ?t = "target_of s w"
  let ?st = "deliver_step env fl s m w (c, l)"
  let ?b = "IsClaudeRunning env l w"
  let ?es1 = "[IsClaudeRunningEv w ?b]"
  have nc: "no_claude env fl w l = (\<not> ?b, l @ ?es1)"
    using assms by (simp add: no_claude_def)
  obtain es2 where es2: "snd (has_pending env fl ?t (l @ ?es1)) = (l @ ?es1) @ es2"
    "filter is_send es2 = []"
    using has_pending_log [of env fl ?t "l @ ?es1"] by blast
  have nosend: "AddMessageEv t m' r \<notin> set es2" for t m' r
    using es2(2) by (rule no_send_in(2))
  show ?thesis
  proof (cases ?b)
    case False
    let ?es = "?es1 @ [Print (NoClaudeAgent (Name w))]"
    have "snd ?st = l @ ?es"
      using False by (simp add: deliver_step_def Let_def split_beta nc)
    then show ?thesis
      by (intro exI [of _ ?es]) simp
  next
    case True
    show ?thesis
    proof (cases "fst (has_pending env fl ?t (l @ ?es1))")
      case busy: True
      let ?es = "?es1 @ es2 @ [Print (BusyTyping (Name w))]"
      have "snd ?st = l @ ?es"
        using True busy es2(1) by (simp add: deliver_step_def Let_def split_beta nc)
      then show ?thesis
        using nosend by (intro exI [of _ ?es]) simp
    next
      case idle: False
      let ?r = "AddMessage env (l @ ?es1 @ es2) ?t m"
      let ?es = "?es1 @ es2 @ (case ?r of None \<Rightarrow> [AddMessageEv ?t m None]
                   | Some err \<Rightarrow> [AddMessageEv ?t m (Some err), Print (FailedToQueue (Name w) err)])"
      have "snd ?st = l @ ?es"
        using True idle es2(1)
        by (simp add: deliver_step_def Let_def split_beta nc split: option.splits)
      then show ?thesis
        using nosend True by (intro exI [of _ ?es]) (simp split: option.splits)
    qed
  qed
qed

lemma deliver_loop_sends_classified:
  assumes "\<not> anyFlag fl"
  shows "\<exists>es. snd (deliver_loop env fl s m ws (c, l)) = l @ es \<and>
           (\<forall>t m' r. AddMessageEv t m' r \<in> set es \<longrightarrow>
              (\<exists>w\<in>set ws. t = target_of s w \<and> IsClaudeRunningEv w True \<in> set es))"
proof (induction ws arbitrary: c l)
  case Nil
  show ?case by simp
next
  case (Cons w ws)
  let ?st = "deliver_step env fl s m w (c, l)"
  obtain es1 where es1: "snd ?st = l @ es1"
    "\<forall>t m' r. AddMessageEv t m' r \<in> set es1 \<longrightarrow>
       t = target_of s w \<and> IsClaudeRunningEv w True \<in> set es1"
    using deliver_step_sends_classified [OF assms, of env s m w c l] by blast
  obtain es2 where es2: "snd (deliver_loop env fl s m ws (fst ?st, l @ es1)) = (l @ es1) @ es2"
    "\<forall>t m' r. AddMessageEv t m' r \<in> set es2 \<longrightarrow>
       (\<exists>w\<in>set ws. t = target_of s w \<and> IsClaudeRunningEv w True \<in> set es2)"
    using Cons.IH [of "fst ?st" "l @ es1"] by blast
  have "?st = (fst ?st, l @ es1)"
    using es1(1) by (simp add: prod_eq_iff)
  then have "deliver_loop env fl s m (w # ws) (c, l) = deliver_loop env fl s m ws (fst ?st, l @ es1)"
    by (simp del: deliver_loop.simps add: deliver_loop.simps(2))
  then have a: "snd (deliver_loop env fl s m (w # ws) (c, l)) = l @ (es1 @ es2)"
    using es2(1) by simp
  have b: "\<forall>t m' r. AddMessageEv t m' r \<in> set (es1 @ es2) \<longrightarrow>
       (\<exists>w'\<in>set (w # ws). t = target_of s w' \<and> IsClaudeRunningEv w' True \<in> set (es1 @ es2))"
  proof (intro allI impI)
    fix t m' r
    assume "AddMessageEv t m' r \<in> set (es1 @ es2)"
    then consider "AddMessageEv t m' r \<in> set es1" | "AddMessageEv t m' r \<in> set es2"
      by auto
    then show "\<exists>w'\<in>set (w # ws). t = target_of s w' \<and> IsClaudeRunningEv w' True \<in> set (es1 @ es2)"
    proof cases
      case 1
      with es1(2) have "t = target_of s w \<and> IsClaudeRunningEv w True \<in> set es1" by blast
      then show ?thesis by simp
    next
      case 2
      with es2(2) obtain w' where "w' \<in> set ws" "t = target_of s w'"
        "IsClaudeRunningEv w' True \<in> set es2" by blast
      then show ?thesis by auto
    qed
  qed
  show ?case
    by (rule exI [of _ "es1 @ es2"]) (intro conjI a b)
qed

text \<open>
  C1, amended. Without \<open>--any\<close>, the restriction to agent windows is made by the delivery
  loop, not by the resolver: resolution returns the same session and target list
  whatever the classifier answers, and every send of a run goes to a target of that list
  about which the classifier, asked during the run, said yes.
\<close>

theorem agent_filter_at_delivery:
  "\<not> anyFlag fl \<Longrightarrow>
     resolve (env\<lparr>IsClaudeRunning := classifier\<rparr>) fl l = resolve env fl l \<and>
     (resolve env fl l = (Inr (session, targets), l1) \<longrightarrow>
        (let es = drop (length l1) (snd (runAdd env fl args l))
         in snd (runAdd env fl args l) = l1 @ es \<and>
            (\<forall>t m r. AddMessageEv t m r \<in> set es \<longrightarrow>
               (\<exists>w\<in>set targets. t = target_of session w \<and> IsClaudeRunningEv w True \<in> set es))))"
proof -
  assume noany: "\<not> anyFlag fl"
  let ?m = "strings_Join args '' ''"
  have run: "\<exists>es. snd (runAdd env fl args l) = l1 @ es \<and>
            (\<forall>t m r. AddMessageEv t m r \<in> set es \<longrightarrow>
               (\<exists>w\<in>set targets. t = target_of session w \<and> IsClaudeRunningEv w True \<in> set es))"
    if res: "resolve env fl l = (Inr (session, targets), l1)"
  proof (cases "targets = []")
    case True
    then have "snd (runAdd env fl args l) = l1 @ [Print NoWindowsToSend]"
      by (simp add: runAdd_def res)
    then show ?thesis
      by (intro exI [of _ "[Print NoWindowsToSend]"]) simp
  next
    case False
    show ?thesis
    proof (cases "dryRunFlag fl")
      case True
      let ?h = "Print (WouldQueue (int (length targets)) session)"
      obtain es where es: "dry_run_loop env targets (l1 @ [?h]) = (l1 @ [?h]) @ es"
        "filter is_delivery es = []"
        using dry_run_loop_log [of env targets "l1 @ [?h]"] by blast
      let ?es = "[?h] @ es @ [Print (WouldQueueMessage ?m)]"
      have "snd (runAdd env fl args l) = l1 @ ?es"
        using True False es(1) by (simp add: runAdd_def res)
      moreover have "AddMessageEv t m r \<notin> set ?es" for t m r
        using no_send_in(1) [OF es(2)] by simp
      ultimately show ?thesis
        by (intro exI [of _ ?es]) simp
    next
      case nodry: False
      let ?loop = "deliver_loop env fl session ?m targets (zero_counters, l1)"
      obtain es where es: "snd ?loop = l1 @ es"
        "\<forall>t m' r. AddMessageEv t m' r \<in> set es \<longrightarrow>
              (\<exists>w\<in>set targets. t = target_of session w \<and> IsClaudeRunningEv w True \<in> set es)"
        using deliver_loop_sends_classified [OF noany, of env session ?m targets zero_counters l1]
        by blast
      obtain p where p: "snd (runAdd env fl args l) = l1 @ (es @ [Print p])"
        using runAdd_delivery [OF res False nodry, of args] es(1) by (simp add: report_log)
      have "\<forall>t m r. AddMessageEv t m r \<in> set (es @ [Print p]) \<longrightarrow>
               (\<exists>w\<in>set targets. t = target_of session w \<and>
                  IsClaudeRunningEv w True \<in> set (es @ [Print p]))"
        using es(2) by simp
      with p show ?thesis
        by (intro exI [of _ "es @ [Print p]"]) simp
    qed
  qed
  have second: "resolve env fl l = (Inr (session, targets), l1) \<longrightarrow>
        (let es = drop (length l1) (snd (runAdd env fl args l))
         in snd (runAdd env fl args l) = l1 @ es \<and>
            (\<forall>t m r. AddMessageEv t m r \<in> set es \<longrightarrow>
               (\<exists>w\<in>set targets. t = target_of session w \<and> IsClaudeRunningEv w True \<in> set es)))"
  proof
    assume res: "resolve env fl l = (Inr (session, targets), l1)"
    from run [OF res] obtain es where es: "snd (runAdd env fl args l) = l1 @ es"
      "\<forall>t m r. AddMessageEv t m r \<in> set es \<longrightarrow>
               (\<exists>w\<in>set targets. t = target_of session w \<and> IsClaudeRunningEv w True \<in> set es)"
      by blast
    have d: "drop (length l1) (snd (runAdd env fl args l)) = es"
      by (simp add: es(1))
    show "let es = drop (length l1) (snd (runAdd env fl args l))
         in snd (runAdd env fl args l) = l1 @ es \<and>
            (\<forall>t m r. AddMessageEv t m r \<in> set es \<longrightarrow>
               (\<exists>w\<in>set targets. t = target_of session w \<and> IsClaudeRunningEv w True \<in> set es))"
      unfolding Let_def d by (intro conjI es)
  qed
  show ?thesis
    by (intro conjI resolve_classifier second)
qed

lemma quiet_all_steps:
  "deliver_step quiet (no_flags\<lparr>allFlag := True\<rparr>) ''work'' ''done'' w_main (c, l) =
     (c\<lparr>skippedNoClaude := skippedNoClaude c + 1\<rparr>,
      l @ [IsClaudeRunningEv w_main False, Print (NoClaudeAgent ''main'')])"
  "deliver_step quiet (no_flags\<lparr>allFlag := True\<rparr>) ''work'' ''done'' w_worker (c, l) =
     (c\<lparr>succeeded := succeeded c + 1\<rparr>,
      l @ [IsClaudeRunningEv w_worker True, HasPendingInputEv ''work:1'' False None,
           AddMessageEv ''work:1'' ''done'' None])"
  "deliver_step quiet (no_flags\<lparr>allFlag := True\<rparr>) ''work'' ''done'' w_build (c, l) =
     (c\<lparr>succeeded := succeeded c + 1\<rparr>,
      l @ [IsClaudeRunningEv w_build True, HasPendingInputEv ''work:2'' False None,
           AddMessageEv ''work:2'' ''done'' None])"
  by (simp_all add: deliver_step_def no_claude_def has_pending_def pending_loop_first probe_def
      targets_simps quiet_def tmux_answers_fields by_command_def window_fields no_flags_simps
      Let_def)

lemma quiet_all_run:
  "snd (runAdd quiet (no_flags\<lparr>allFlag := True\<rparr>) [''done''] []) =
     [IsInsideTmuxEv True, GetCurrentContextEv (Inr (''work'', 0, ''%0'')),
      SessionExistsEv ''work'' True, ListWindowsEv ''work'' (Inr [w_main, w_worker, w_build])] @
     [IsClaudeRunningEv w_main False, Print (NoClaudeAgent ''main''),
      IsClaudeRunningEv w_worker True, HasPendingInputEv ''work:1'' False None,
      AddMessageEv ''work:1'' ''done'' None,
      IsClaudeRunningEv w_build True, HasPendingInputEv ''work:2'' False None,
      AddMessageEv ''work:2'' ''done'' None,
      Print (TallyLine ''queued to 2, 1 skipped (no Claude)'')]"
  by (simp add: runAdd_def quiet_all_resolve quiet_all_steps no_flags_simps Let_def
      zero_counters_def report_def tally_parts_def sprintf_d_digit)

theorem agent_filter_at_delivery_witness:
  "\<exists>w\<in>set [w_main, w_worker, w_build].
      ''work:1'' = target_of ''work'' w \<and>
      IsClaudeRunningEv w True \<in> set (snd (runAdd quiet (no_flags\<lparr>allFlag := True\<rparr>) [''done''] []))"
proof -
  let ?fl = "no_flags\<lparr>allFlag := True\<rparr>"
  let ?l1 = "[IsInsideTmuxEv True, GetCurrentContextEv (Inr (''work'', 0, ''%0'')),
      SessionExistsEv ''work'' True, ListWindowsEv ''work'' (Inr [w_main, w_worker, w_build])]"
  have noany: "\<not> anyFlag ?fl"
    by (simp add: no_flags_simps)
  have sent: "AddMessageEv ''work:1'' ''done'' None \<in>
      set (drop (length ?l1) (snd (runAdd quiet ?fl [''done''] [])))"
    by (simp only: quiet_all_run append_eq_conv_conj drop_append) simp
  from agent_filter_at_delivery [OF noany, where env = quiet and l = "[]" and session = "''work''"
      and targets = "[w_main, w_worker, w_build]" and ?l1.0 = ?l1 and args = "[''done'']",
      unfolded Let_def] quiet_all_resolve(1) sent
  have "\<exists>w\<in>set [w_main, w_worker, w_build]. ''work:1'' = target_of ''work'' w \<and>
      IsClaudeRunningEv w True \<in> set (drop (length ?l1) (snd (runAdd quiet ?fl [''done''] [])))"
    by blast
  then show ?thesis
    by (meson in_set_dropD)
qed

text \<open>The filter loop of the earlier revision did ask the classifier: without \<open>--any\<close>,
  every window it adds to the target list is one the classifier said yes about.\<close>

lemma filter_windows_prev_agents:
  assumes "\<not> anyFlag fl"
  shows "\<exists>es. snd (filter_windows_prev env fl cwi ws (ts, l)) = l @ es \<and>
           (\<forall>w\<in>set (fst (filter_windows_prev env fl cwi ws (ts, l))).
              w \<in> set ts \<or> IsClaudeRunningEv w True \<in> set es)"
proof (induction ws arbitrary: ts l)
  case Nil
  show ?case by simp
next
  case (Cons w ws)
  let ?b = "IsClaudeRunning env l w"
  let ?ev = "IsClaudeRunningEv w ?b"
  have nc: "no_claude env fl w l = (\<not> ?b, l @ [?ev])"
    using assms by (simp add: no_claude_def)
  consider (dropped) "\<not> keep_window env fl cwi w"
    | (no_agent) "keep_window env fl cwi w" "\<not> ?b"
    | (agent) "keep_window env fl cwi w" "?b"
    by blast
  then show ?case
  proof cases
    case dropped
    then have "filter_windows_prev env fl cwi (w # ws) (ts, l) =
        filter_windows_prev env fl cwi ws (ts, l)"
      by simp
    then show ?thesis
      using Cons.IH [of ts l] by simp
  next
    case no_agent
    then have eq: "filter_windows_prev env fl cwi (w # ws) (ts, l) =
        filter_windows_prev env fl cwi ws (ts, l @ [?ev])"
      by (simp add: nc)
    obtain es where es: "snd (filter_windows_prev env fl cwi ws (ts, l @ [?ev])) = (l @ [?ev]) @ es"
      "\<forall>w\<in>set (fst (filter_windows_prev env fl cwi ws (ts, l @ [?ev]))).
          w \<in> set ts \<or> IsClaudeRunningEv w True \<in> set es"
      using Cons.IH [of ts "l @ [?ev]"] by blast
    show ?thesis
      unfolding eq using es by (intro exI [of _ "[?ev] @ es"]) auto
  next
    case agent
    then have eq: "filter_windows_prev env fl cwi (w # ws) (ts, l) =
        filter_windows_prev env fl cwi ws (ts @ [w], l @ [?ev])"
      by (simp add: nc)
    obtain es where es:
      "snd (filter_windows_prev env fl cwi ws (ts @ [w], l @ [?ev])) = (l @ [?ev]) @ es"
      "\<forall>w'\<in>set (fst (filter_windows_prev env fl cwi ws (ts @ [w], l @ [?ev]))).
          w' \<in> set (ts @ [w]) \<or> IsClaudeRunningEv w' True \<in> set es"
      using Cons.IH [of "ts @ [w]" "l @ [?ev]"] by blast
    show ?thesis
      unfolding eq using es agent(2) by (intro exI [of _ "[?ev] @ es"]) auto
  qed
qed

end
